theory Spec2Isabelle
  imports Complex_Main "HOL-Library.Sublist"
begin

section \<open>EFG canonical orientations of hydride nuclei (extract\_EFG\_hydrides.py)\<close>

text \<open>
  The theory embeds the functions of \<^verbatim>\<open>src/ORCA_NBO_parsers/extract_EFG_hydrides.py\<close>:
  \<^verbatim>\<open>get_canonical_orientation\<close>, \<^verbatim>\<open>extract_raw_efg_matrices\<close>,
  \<^verbatim>\<open>format_orientation_output\<close> and the cell processing of the two CSV drivers.

  Conventions of the embedding.
  \<^item> A Python float is a real number or the negative zero: the model computes with the
    exact value and keeps the sign of a zero as IEEE arithmetic does; it has no rounding,
    no infinities and no NaN.
  \<^item> A Python \<^verbatim>\<open>str\<close> is a \<^typ>\<open>string\<close>; one \<^typ>\<open>char\<close> stands for one code point
    below 256.
  \<^item> Library functions whose result the source only passes on are parameters of the
    model: the symmetric eigensolver \<^verbatim>\<open>np.linalg.eigh\<close> (\<open>eigh\<close>) and the fixed-point
    float formatting \<^verbatim>\<open>f'{val:.6f}'\<close> (\<open>fmt\<close>).
  \<^item> A raised exception is a value \<open>Inl e\<close> of a sum type.
\<close>

subsection \<open>Floats\<close>

text \<open>
  \<open>F x\<close> is the float of value \<open>x\<close>, \<open>F 0\<close> the positive zero, \<open>NegZero\<close> the negative
  zero. A product that is zero has the sign of its factors (negative when exactly one
  factor has the sign bit set); a sum that is zero is the negative zero only when both
  terms are the negative zero; negation changes the sign of a zero; a comparison sees
  the value only.
\<close>

datatype pyfloat = F real | NegZero

fun fval :: "pyfloat \<Rightarrow> real" where
  "fval (F x) = x"
| "fval NegZero = 0"

fun signbit :: "pyfloat \<Rightarrow> bool" where
  "signbit (F x) = (x < 0)"
| "signbit NegZero = True"

definition fmul :: "pyfloat \<Rightarrow> pyfloat \<Rightarrow> pyfloat" where
  "fmul a b =
     (if fval a * fval b = 0 then (if signbit a \<noteq> signbit b then NegZero else F 0)
      else F (fval a * fval b))"

definition fadd :: "pyfloat \<Rightarrow> pyfloat \<Rightarrow> pyfloat" where
  "fadd a b =
     (if fval a + fval b = 0 then (if a = NegZero \<and> b = NegZero then NegZero else F 0)
      else F (fval a + fval b))"

fun fneg :: "pyfloat \<Rightarrow> pyfloat" where
  "fneg (F x) = (if x = 0 then NegZero else F (- x))"
| "fneg NegZero = F 0"

definition fsub :: "pyfloat \<Rightarrow> pyfloat \<Rightarrow> pyfloat" where
  "fsub a b = fadd a (fneg b)"

definition fabs :: "pyfloat \<Rightarrow> pyfloat" where
  "fabs a = F \<bar>fval a\<bar>"

definition flt :: "pyfloat \<Rightarrow> pyfloat \<Rightarrow> bool" where
  "flt a b = (fval a < fval b)"

subsection \<open>Vectors of length three\<close>

text \<open>
  \<^verbatim>\<open>np.linalg.eigh\<close> applied to a 3x3 array returns an array of 3 eigenvalues and a 3x3
  array whose column \<open>i\<close> is the eigenvector of eigenvalue \<open>i\<close>. The shapes are fixed in the
  types: a vector is a triple, the eigenvector array is a triple of rows.
\<close>

type_synonym vec3 = "pyfloat \<times> pyfloat \<times> pyfloat"
type_synonym mat3 = "vec3 \<times> vec3 \<times> vec3"

text \<open>A raw EFG matrix as the Block Locator builds it: the list of its parsed rows.\<close>

type_synonym matrix = "pyfloat list list"

fun tolist :: "vec3 \<Rightarrow> pyfloat list" where
  "tolist (a, b, c) = [a, b, c]"

text \<open>\<^verbatim>\<open>eigvecs[:, i]\<close>: column \<open>i\<close> of the eigenvector array, for \<open>i < 3\<close>.\<close>

fun column :: "mat3 \<Rightarrow> nat \<Rightarrow> vec3" where
  "column (r0, r1, r2) i = (tolist r0 ! i, tolist r1 ! i, tolist r2 ! i)"

fun np_abs :: "vec3 \<Rightarrow> vec3" where
  "np_abs (a, b, c) = (fabs a, fabs b, fabs c)"

text \<open>
  \<^verbatim>\<open>np.argmax\<close>: the index of the maximum, the first one when the maximum occurs
  several times. \<open>argmax_from best bv i xs\<close> scans the rest \<open>xs\<close>, whose first element
  has index \<open>i\<close>, with the best index and value so far.
\<close>

fun argmax_from :: "nat \<Rightarrow> pyfloat \<Rightarrow> nat \<Rightarrow> pyfloat list \<Rightarrow> nat" where
  "argmax_from best bv i [] = best"
| "argmax_from best bv i (x # xs) =
     (if flt bv x then argmax_from i x (Suc i) xs else argmax_from best bv (Suc i) xs)"

fun np_argmax :: "vec3 \<Rightarrow> nat" where
  "np_argmax (a, b, c) = argmax_from 0 a 1 [b, c]"

text \<open>
  \<^verbatim>\<open>np.cross\<close> of two vectors of length 3 computes each component as one product minus
  another; \<^verbatim>\<open>np.dot\<close> is the sum of the three products (the source only compares it with
  zero, so the sign of a zero sum is not observed); \<open>neg\<close> is the unary minus of an
  array.
\<close>

fun np_cross :: "vec3 \<Rightarrow> vec3 \<Rightarrow> vec3" where
  "np_cross (a1, a2, a3) (b1, b2, b3) =
     (fsub (fmul a2 b3) (fmul a3 b2), fsub (fmul a3 b1) (fmul a1 b3),
      fsub (fmul a1 b2) (fmul a2 b1))"

fun np_dot :: "vec3 \<Rightarrow> vec3 \<Rightarrow> pyfloat" where
  "np_dot (a1, a2, a3) (b1, b2, b3) = fadd (fadd (fmul a1 b1) (fmul a2 b2)) (fmul a3 b3)"

fun neg :: "vec3 \<Rightarrow> vec3" where
  "neg (a, b, c) = (fneg a, fneg b, fneg c)"

subsection \<open>get\_canonical\_orientation\<close>

text \<open>
  The returned dict is an association list in insertion order; \<open>[]\<close> is the empty dict
  returned for an absent matrix. The values are the three axes (\<^verbatim>\<open>.tolist()\<close> of an
  array of length 3), kept as triples.
\<close>

type_synonym orientation_dict = "(string \<times> vec3) list"

definition get_canonical_orientation ::
    "(matrix \<Rightarrow> vec3 \<times> mat3) \<Rightarrow> matrix option \<Rightarrow> orientation_dict" where
  "get_canonical_orientation eigh raw_efg_matrix =
     (case raw_efg_matrix of
        None \<Rightarrow> []
      | Some m \<Rightarrow>
          (let (eigvals, eigvecs) = eigh m;
               max_abs_idx = np_argmax (np_abs eigvals);
               z_axis = column eigvecs max_abs_idx;
               other_indices = filter (\<lambda>i. i \<noteq> max_abs_idx) [0..<3];
               v1 = column eigvecs (other_indices ! 0);
               v2 = column eigvecs (other_indices ! 1);
               x_axis = v1;
               y_axis = np_cross z_axis x_axis;
               y_axis = (if flt (np_dot y_axis v2) (F 0) then neg y_axis else y_axis)
           in [(''X'', x_axis), (''Y'', y_axis), (''Z'', z_axis)]))"

subsection \<open>format\_orientation\_output\<close>

text \<open>\<^verbatim>\<open>sep.join(parts)\<close>.\<close>

fun join :: "string \<Rightarrow> string list \<Rightarrow> string" where
  "join sep [] = []"
| "join sep [p] = p"
| "join sep (p # q # ps) = p @ sep @ join sep (q # ps)"

text \<open>
  \<open>fmt\<close> is \<^verbatim>\<open>f'{val:.6f}'\<close>. The three lookups cannot raise KeyError: the guard before
  them returns for a dict that misses one of the keys.
\<close>

definition axis_str :: "(pyfloat \<Rightarrow> string) \<Rightarrow> string \<Rightarrow> vec3 \<Rightarrow> string" where
  "axis_str fmt name v = name @ ''('' @ join '','' (map fmt (tolist v)) @ '')''"

definition format_orientation_output :: "(pyfloat \<Rightarrow> string) \<Rightarrow> orientation_dict \<Rightarrow> string" where
  "format_orientation_output fmt orientation_dict =
     (if orientation_dict = [] \<or>
         (\<exists>key \<in> set [''X'', ''Y'', ''Z'']. map_of orientation_dict key = None)
      then ''N/A''
      else
        (let x_str = axis_str fmt ''X'' (the (map_of orientation_dict ''X''));
             y_str = axis_str fmt ''Y'' (the (map_of orientation_dict ''Y''));
             z_str = axis_str fmt ''Z'' (the (map_of orientation_dict ''Z''))
         in x_str @ '';'' @ y_str @ '';'' @ z_str))"

text \<open>
  The three statements of the inner loop of \<^verbatim>\<open>process_hydride_orientations_csv\<close> for one
  hydride index: \<^verbatim>\<open>raw_efg_matrices.get(hydride_idx)\<close>, the resolver, the formatter.
  A key of the dict is a value of \<^verbatim>\<open>current_nucleus\<close>, an int or \<^verbatim>\<open>None\<close>; the key looked
  up is an int.
\<close>

definition resolve_orientation ::
    "(matrix \<Rightarrow> vec3 \<times> mat3) \<Rightarrow> (pyfloat \<Rightarrow> string) \<Rightarrow> (int option \<rightharpoonup> matrix) \<Rightarrow> int \<Rightarrow> string" where
  "resolve_orientation eigh fmt matrices hydride_idx =
     (let raw_matrix = matrices (Some hydride_idx);
          orientation_dict = get_canonical_orientation eigh raw_matrix
      in format_orientation_output fmt orientation_dict)"

subsection \<open>Python's int and float on strings\<close>

datatype error = ValueError | KeyError | AttributeError

text \<open>
  The characters \<^verbatim>\<open>\d\<close> and \<^verbatim>\<open>\s\<close> match in a \<^verbatim>\<open>str\<close> pattern, among the code points
  below 256: the ten decimal digits, and the characters for which \<^verbatim>\<open>str.isspace\<close> holds.
\<close>

definition is_digit :: "char \<Rightarrow> bool" where
  "is_digit c = (c \<in> set ''0123456789'')"

definition is_space :: "char \<Rightarrow> bool" where
  "is_space c = (c \<in> set [CHR '' '', CHR 0x09, CHR 0x0A, CHR 0x0B, CHR 0x0C, CHR 0x0D,
                           CHR 0x1C, CHR 0x1D, CHR 0x1E, CHR 0x1F, CHR 0x85, CHR 0xA0])"

definition digit_val :: "char \<Rightarrow> nat" where
  "digit_val c = of_char c - 48"

definition digits_val :: "string \<Rightarrow> nat" where
  "digits_val ds = foldl (\<lambda>a c. 10 * a + digit_val c) 0 ds"

text \<open>\<^verbatim>\<open>s.strip()\<close> drops the characters for which \<^verbatim>\<open>str.isspace\<close> holds.\<close>

definition strip :: "string \<Rightarrow> string" where
  "strip s = rev (dropWhile is_space (rev (dropWhile is_space s)))"

text \<open>
  \<^verbatim>\<open>int\<close> and \<^verbatim>\<open>float\<close> drop other characters around a number: the six ASCII
  whitespace characters and, of the code points from 128 on, those that are whitespace
  (they are turned into blanks before the number is read). The separators
  \<open>0x1C\<close> to \<open>0x1F\<close> are not dropped: \<^verbatim>\<open>int('\x1c2')\<close> raises ValueError.
\<close>

definition is_num_space :: "char \<Rightarrow> bool" where
  "is_num_space c = (c \<in> set [CHR '' '', CHR 0x09, CHR 0x0A, CHR 0x0B, CHR 0x0C, CHR 0x0D,
                               CHR 0x85, CHR 0xA0])"

definition num_strip :: "string \<Rightarrow> string" where
  "num_strip s = rev (dropWhile is_num_space (rev (dropWhile is_num_space s)))"

text \<open>A digit string of an int literal: digits, with single underscores between digits.\<close>

fun digits_us_ok :: "string \<Rightarrow> bool" where
  "digits_us_ok [] = False"
| "digits_us_ok [c] = is_digit c"
| "digits_us_ok (c # d # cs) =
     (is_digit c \<and> (if d = CHR ''_'' then digits_us_ok cs else digits_us_ok (d # cs)))"

text \<open>
  \<^verbatim>\<open>int(s)\<close> for a string: surrounding whitespace is dropped, a sign is optional, the
  rest is a decimal digit string of at most \<open>max_str_digits\<close> digits (the default limit
  of the interpreter, \<^verbatim>\<open>sys.int_info.default_max_str_digits\<close>; underscores do not
  count, leading zeros do); anything else raises ValueError.
\<close>

definition max_str_digits :: nat where
  "max_str_digits = 4300"

definition py_int :: "string \<Rightarrow> error + int" where
  "py_int s =
     (let t = num_strip s;
          (sgn, body) = (if take 1 t = ''-'' then (- 1, drop 1 t)
                         else if take 1 t = ''+'' then (1, drop 1 t) else (1, t));
          digits = filter (\<lambda>c. c \<noteq> CHR ''_'') body
      in if digits_us_ok body \<and> length digits \<le> max_str_digits
         then Inr (sgn * int (digits_val digits))
         else Inl ValueError)"

text \<open>
  \<^verbatim>\<open>float(s)\<close> for a string, on the decimal forms without exponent: optional sign,
  digits, optionally a point and digits, at least one digit in all; there is no limit
  on the number of digits. The value is the exact decimal number, with the sign also
  for a zero. \<^verbatim>\<open>float\<close> accepts more (an exponent, \<^verbatim>\<open>inf\<close>, \<^verbatim>\<open>nan\<close>, underscores);
  for those the model answers ValueError, so a conversion that succeeds in the model
  succeeds in the source.
\<close>

definition py_float :: "string \<Rightarrow> error + pyfloat" where
  "py_float s =
     (let t = num_strip s;
          (negative, body) = (if take 1 t = ''-'' then (True, drop 1 t)
                              else if take 1 t = ''+'' then (False, drop 1 t) else (False, t));
          ip = takeWhile is_digit body;
          r = dropWhile is_digit body;
          fp = drop 1 r;
          magnitude = F (real (digits_val ip) + real (digits_val fp) / 10 ^ length fp)
      in if (r = [] \<or> take 1 r = ''.'' \<and> list_all is_digit fp) \<and> (ip \<noteq> [] \<or> fp \<noteq> [])
         then Inr (if negative then fneg magnitude else magnitude)
         else Inl ValueError)"

text \<open>\<^verbatim>\<open>[float(v) for v in values_match]\<close>: the first failing conversion raises.\<close>

fun map_float :: "string list \<Rightarrow> error + pyfloat list" where
  "map_float [] = Inr []"
| "map_float (v # vs) =
     (case py_float v of
        Inl e \<Rightarrow> Inl e
      | Inr x \<Rightarrow> (case map_float vs of Inl e \<Rightarrow> Inl e | Inr xs \<Rightarrow> Inr (x # xs)))"

subsection \<open>The regular expressions of the Block Locator\<close>

text \<open>
  \<^verbatim>\<open>re.search(r'Nucleus\s+(\d+)H', line)\<close>. At a start position the pattern matches the
  literal, then whitespace, then digits, then \<open>H\<close>. No character is both whitespace and a
  digit, and \<open>H\<close> is not a digit, so the greedy \<^verbatim>\<open>\s+\<close> and \<^verbatim>\<open>\d+\<close> take the whole run of
  whitespace and the whole run of digits, and giving characters back never helps:
  backtracking finds no other match at that position. \<open>nucleus_match_at\<close> is the match
  at the start of \<open>s\<close> and returns group 1; \<open>search_nucleus\<close> tries the start positions
  from left to right, as \<^verbatim>\<open>re.search\<close> does.
\<close>

definition nucleus_match_at :: "string \<Rightarrow> string option" where
  "nucleus_match_at s =
     (if take 7 s = ''Nucleus''
      then (let r = drop 7 s;
                ws = takeWhile is_space r;
                r1 = dropWhile is_space r;
                ds = takeWhile is_digit r1;
                r2 = dropWhile is_digit r1
            in if ws \<noteq> [] \<and> ds \<noteq> [] \<and> take 1 r2 = ''H'' then Some ds else None)
      else None)"

fun search_nucleus :: "string \<Rightarrow> string option" where
  "search_nucleus [] = None"
| "search_nucleus (c # cs) =
     (case nucleus_match_at (c # cs) of Some g \<Rightarrow> Some g | None \<Rightarrow> search_nucleus cs)"

text \<open>\<^verbatim>\<open>sub in s\<close> for strings.\<close>

fun contains :: "string \<Rightarrow> string \<Rightarrow> bool" where
  "contains sub [] = (sub = [])"
| "contains sub (c # cs) = (take (length sub) (c # cs) = sub \<or> contains sub cs)"

text \<open>
  \<^verbatim>\<open>re.findall(r'([-]?\d+\.\d+)', line)\<close>. At a start position the pattern matches an
  optional minus sign, digits, a point, digits; again the greedy runs are the whole runs
  (after a minus sign that is not followed by a digit the match without the sign fails
  too, since the minus sign is not a digit). \<open>float_match_at\<close> returns the matched token
  and the rest of the string after it. \<^verbatim>\<open>findall\<close> collects the matches from left to
  right, continues after the end of a match, and moves one character on where there is
  none.
\<close>

definition float_match_at :: "string \<Rightarrow> (string \<times> string) option" where
  "float_match_at s =
     (let sg = (if take 1 s = ''-'' then ''-'' else []);
          r0 = drop (length sg) s;
          ip = takeWhile is_digit r0;
          r1 = dropWhile is_digit r0;
          fp = takeWhile is_digit (drop 1 r1);
          r2 = dropWhile is_digit (drop 1 r1)
      in if ip \<noteq> [] \<and> take 1 r1 = ''.'' \<and> fp \<noteq> []
         then Some (sg @ ip @ ''.'' @ fp, r2) else None)"

lemma float_match_at_shorter:
  "float_match_at s = Some (tok, rest) \<Longrightarrow> length rest < length s"
proof -
  assume a: "float_match_at s = Some (tok, rest)"
  define sg where "sg = (if take 1 s = ''-'' then ''-'' else [])"
  define r0 where "r0 = drop (length sg) s"
  define r1 where "r1 = dropWhile is_digit r0"
  from a have ip: "takeWhile is_digit r0 \<noteq> []" and rest: "rest = dropWhile is_digit (drop 1 r1)"
    unfolding float_match_at_def Let_def sg_def [symmetric] r0_def [symmetric] r1_def [symmetric]
    by (auto split: if_splits)
  have "length rest \<le> length (drop 1 r1)"
    unfolding rest by (rule length_dropWhile_le)
  also have "\<dots> \<le> length r1" by simp
  also have "length r1 < length r0"
  proof -
    have "length r0 = length (takeWhile is_digit r0) + length r1"
      unfolding r1_def by (metis length_append takeWhile_dropWhile_id)
    with ip show ?thesis by (cases "takeWhile is_digit r0") auto
  qed
  also have "length r0 \<le> length s" by (simp add: r0_def)
  finally show ?thesis .
qed

function findall_floats :: "string \<Rightarrow> string list" where
  "findall_floats [] = []"
| "findall_floats (c # cs) =
     (case float_match_at (c # cs) of
        Some (tok, rest) \<Rightarrow> tok # findall_floats rest
      | None \<Rightarrow> findall_floats cs)"
  by pat_completeness auto
termination
  by (relation "measure length") (auto dest: float_match_at_shorter)

subsection \<open>extract\_raw\_efg\_matrices\<close>

text \<open>
  The local variables of the function are the state of its loop. The dict is keyed by
  the values \<^verbatim>\<open>current_nucleus\<close> takes: an int or \<^verbatim>\<open>None\<close>.
\<close>

record locator_state =
  raw_efg_matrices :: "int option \<rightharpoonup> matrix"
  current_nucleus :: "int option"
  efg_section :: bool
  efg_matrix_lines :: "pyfloat list list"

definition initial_state :: locator_state where
  "initial_state =
     \<lparr>raw_efg_matrices = Map.empty, current_nucleus = None,
      efg_section = False, efg_matrix_lines = []\<rparr>"

text \<open>Lines 216 to 222: the marker of a nucleus.\<close>

definition marker_part :: "locator_state \<Rightarrow> string \<Rightarrow> error + locator_state" where
  "marker_part st line =
     (case search_nucleus line of
        None \<Rightarrow> Inr st
      | Some group1 \<Rightarrow>
          (case py_int group1 of
             Inl e \<Rightarrow> Inl e
           | Inr n \<Rightarrow>
               Inr ((if efg_section st
                     then st\<lparr>efg_section := False, efg_matrix_lines := []\<rparr>
                     else st)\<lparr>current_nucleus := Some n\<rparr>)))"

text \<open>Lines 231 to 242: inside the EFG section, collect a row and store a complete matrix.\<close>

definition collect_part :: "locator_state \<Rightarrow> string \<Rightarrow> error + locator_state" where
  "collect_part st line =
     (if efg_section st \<and> length (efg_matrix_lines st) < 3
      then (let values_match = findall_floats line
            in case (if length values_match = 3
                     then (case map_float values_match of
                             Inl e \<Rightarrow> Inl e
                           | Inr row \<Rightarrow>
                               Inr (st\<lparr>efg_matrix_lines := efg_matrix_lines st @ [row]\<rparr>))
                     else Inr st) of
                 Inl e \<Rightarrow> Inl e
               | Inr st2 \<Rightarrow>
                   if length (efg_matrix_lines st2) = 3
                   then Inr (st2\<lparr>raw_efg_matrices :=
                                    (raw_efg_matrices st2)(current_nucleus st2 \<mapsto> efg_matrix_lines st2),
                                  current_nucleus := None,
                                  efg_section := False,
                                  efg_matrix_lines := []\<rparr>)
                   else Inr st2)
      else Inr st)"

text \<open>The body of the loop; the second branch is the \<^verbatim>\<open>continue\<close> of line 228.\<close>

definition locator_step :: "locator_state \<Rightarrow> string \<Rightarrow> error + locator_state" where
  "locator_step st line =
     (case marker_part st line of
        Inl e \<Rightarrow> Inl e
      | Inr st1 \<Rightarrow>
          if current_nucleus st1 \<noteq> None \<and> contains ''Raw EFG matrix'' line
          then Inr (st1\<lparr>efg_section := True, efg_matrix_lines := []\<rparr>)
          else collect_part st1 line)"

fun scan :: "locator_state \<Rightarrow> string list \<Rightarrow> error + locator_state" where
  "scan st [] = Inr st"
| "scan st (line # content) =
     (case locator_step st line of Inl e \<Rightarrow> Inl e | Inr st' \<Rightarrow> scan st' content)"

text \<open>
  The function on the lines of the file (\<^verbatim>\<open>content = file.readlines()\<close>); reading the
  file is outside the model.
\<close>

definition extract_raw_efg_matrices :: "string list \<Rightarrow> error + (int option \<rightharpoonup> matrix)" where
  "extract_raw_efg_matrices content =
     (case scan initial_state content of
        Inl e \<Rightarrow> Inl e
      | Inr st \<Rightarrow> Inr (raw_efg_matrices st))"

subsection \<open>The cells of the hydride index columns\<close>

text \<open>\<^verbatim>\<open>s.split(c)\<close> for a separator \<open>c\<close> of one character.\<close>

fun split_on :: "char \<Rightarrow> string \<Rightarrow> string list" where
  "split_on c [] = [[]]"
| "split_on c (x # xs) =
     (if x = c then [] # split_on c xs
      else (case split_on c xs of w # ws \<Rightarrow> (x # w) # ws | [] \<Rightarrow> [[x]]))"

text \<open>\<^verbatim>\<open>list(map(int, tokens))\<close>: the first failing conversion raises.\<close>

fun map_int :: "string list \<Rightarrow> error + int list" where
  "map_int [] = Inr []"
| "map_int (v # vs) =
     (case py_int v of
        Inl e \<Rightarrow> Inl e
      | Inr n \<Rightarrow> (case map_int vs of Inl e \<Rightarrow> Inl e | Inr ns \<Rightarrow> Inr (n # ns)))"

text \<open>
  Lines 305 to 320 of \<^verbatim>\<open>process_hydride_orientations_csv\<close>: the loop over the entries of
  a cell. An empty entry is skipped; the indices of an entry are resolved one by one and
  joined by a comma.
\<close>

fun orientation_results ::
    "(matrix \<Rightarrow> vec3 \<times> mat3) \<Rightarrow> (pyfloat \<Rightarrow> string) \<Rightarrow> (int option \<rightharpoonup> matrix) \<Rightarrow>
     string list \<Rightarrow> error + string list" where
  "orientation_results eigh fmt matrices [] = Inr []"
| "orientation_results eigh fmt matrices (entry # entries) =
     (if entry = [] then orientation_results eigh fmt matrices entries
      else (case map_int (split_on CHR '','' entry) of
              Inl e \<Rightarrow> Inl e
            | Inr indices \<Rightarrow>
                (case orientation_results eigh fmt matrices entries of
                   Inl e \<Rightarrow> Inl e
                 | Inr rest \<Rightarrow>
                     Inr (join '','' (map (resolve_orientation eigh fmt matrices) indices) # rest))))"

text \<open>
  Lines 301 to 324 for one cell: \<open>text\<close> is \<^verbatim>\<open>str(row[col])\<close>; the result is the string
  stored in the new column.
\<close>

definition orientation_cell ::
    "(matrix \<Rightarrow> vec3 \<times> mat3) \<Rightarrow> (pyfloat \<Rightarrow> string) \<Rightarrow> (int option \<rightharpoonup> matrix) \<Rightarrow>
     string \<Rightarrow> error + string" where
  "orientation_cell eigh fmt matrices text =
     (let entries = (if CHR '';'' \<in> set text then split_on CHR '';'' text
                     else split_on CHR '','' text);
          separator = (if CHR '';'' \<in> set text then '';'' else '','')
      in case orientation_results eigh fmt matrices entries of
           Inl e \<Rightarrow> Inl e
         | Inr results \<Rightarrow> Inr (join separator results))"

text \<open>
  Lines 100 to 121 of \<^verbatim>\<open>process_hydride_csv\<close>: the pieces of one entry. \<open>with_eta\<close> is the
  condition of the first branch. A value of the dict is a pair, which is true as a
  condition, so the test \<^verbatim>\<open>if val\<close> asks whether the key is present.
\<close>

definition eqQ_pieces ::
    "bool \<Rightarrow> (pyfloat \<Rightarrow> string) \<Rightarrow> (int \<rightharpoonup> pyfloat \<times> pyfloat) \<Rightarrow> int list \<Rightarrow> string list" where
  "eqQ_pieces with_eta fmt efg_map idxs =
     map (\<lambda>i. case efg_map (i - 1) of
                 Some val \<Rightarrow>
                   (if with_eta then ''('' @ fmt (fst val) @ '','' @ fmt (snd val) @ '')''
                    else fmt (fst val))
               | None \<Rightarrow> (if with_eta then ''(N/A,N/A)'' else ''N/A'')) idxs"

text \<open>Lines 96 to 123 for one cell; an entry is stripped, and an empty entry is not skipped.\<close>

fun eqQ_entries ::
    "bool \<Rightarrow> (pyfloat \<Rightarrow> string) \<Rightarrow> (int \<rightharpoonup> pyfloat \<times> pyfloat) \<Rightarrow> string list \<Rightarrow> error + string list" where
  "eqQ_entries with_eta fmt efg_map [] = Inr []"
| "eqQ_entries with_eta fmt efg_map (ent # entries) =
     (case map_int (split_on CHR '','' ent) of
        Inl e \<Rightarrow> Inl e
      | Inr idxs \<Rightarrow>
          (case eqQ_entries with_eta fmt efg_map entries of
             Inl e \<Rightarrow> Inl e
           | Inr rest \<Rightarrow> Inr (join '','' (eqQ_pieces with_eta fmt efg_map idxs) # rest)))"

definition eqQ_cell ::
    "bool \<Rightarrow> (pyfloat \<Rightarrow> string) \<Rightarrow> (int \<rightharpoonup> pyfloat \<times> pyfloat) \<Rightarrow> string \<Rightarrow> error + string" where
  "eqQ_cell with_eta fmt efg_map raw =
     (let sep = (if CHR '';'' \<in> set raw then CHR '';'' else CHR '','');
          entries = map strip (split_on sep raw)
      in case eqQ_entries with_eta fmt efg_map entries of
           Inl e \<Rightarrow> Inl e
         | Inr out_entries \<Rightarrow> Inr (join [sep] out_entries))"

subsection \<open>process\_hydride\_orientations\_csv\<close>

text \<open>
  A table as \<^verbatim>\<open>pd.read_csv\<close> returns it: the column names, and for each row the cell of
  every column. A cell is a missing value (\<^verbatim>\<open>pd.isna\<close>), a string, or a value of
  another type (a number, a boolean), of which the model keeps the text \<^verbatim>\<open>str\<close> gives.
  Reading and writing the CSV files is outside the model: the function takes the input
  table and returns the output table, and \<open>files\<close> gives the lines of each regular file
  by its path (\<^verbatim>\<open>os.path.isfile\<close> holds for the paths in its domain, and the file is
  read as text without error).
\<close>

datatype cell = NaN | Str string | NonStr string

fun str :: "cell \<Rightarrow> string" where
  "str (Str s) = s"
| "str (NonStr s) = s"
| "str NaN = ''nan''"

type_synonym row = "string \<Rightarrow> cell"

record dataframe =
  columns :: "string list"
  rows :: "row list"

text \<open>\<^verbatim>\<open>s.replace(old, new)\<close> for a non-empty \<open>old\<close>, and \<^verbatim>\<open>os.path.join\<close> of two parts.\<close>

fun replace :: "string \<Rightarrow> string \<Rightarrow> string \<Rightarrow> string" where
  "replace old new [] = []"
| "replace old new (c # cs) =
     (if old \<noteq> [] \<and> take (length old) (c # cs) = old
      then new @ replace old new (drop (length old) (c # cs))
      else c # replace old new cs)"

definition path_join :: "string \<Rightarrow> string \<Rightarrow> string" where
  "path_join a b =
     (if take 1 b = ''/'' then b
      else if a = [] \<or> last a = CHR ''/'' then a @ b
      else a @ ''/'' @ b)"

definition hydride_cols :: "dataframe \<Rightarrow> string list" where
  "hydride_cols input_data = filter (contains ''Hydrides'') (columns input_data)"

text \<open>
  \<^verbatim>\<open>output_data[f"{col}_orientations"] = ''\<close> for every hydride column: the column is
  appended when the table has no column of that name, and every row gets the empty
  string in it.
\<close>

definition new_columns :: "string list \<Rightarrow> string list \<Rightarrow> string list" where
  "new_columns cols hcols =
     foldl (\<lambda>cs col. if col @ ''_orientations'' \<in> set cs then cs
                       else cs @ [col @ ''_orientations'']) cols hcols"

definition new_row :: "string list \<Rightarrow> row \<Rightarrow> row" where
  "new_row hcols r = foldl (\<lambda>r col. r(col @ ''_orientations'' := Str [])) r hcols"

text \<open>Lines 297 to 324: the hydride columns of one row, with the matrices of its file.\<close>

fun process_cols ::
    "(matrix \<Rightarrow> vec3 \<times> mat3) \<Rightarrow> (pyfloat \<Rightarrow> string) \<Rightarrow> (int option \<rightharpoonup> matrix) \<Rightarrow>
     string list \<Rightarrow> row \<Rightarrow> row \<Rightarrow> error + row" where
  "process_cols eigh fmt matrices [] r out_row = Inr out_row"
| "process_cols eigh fmt matrices (col # cols) r out_row =
     (if r col = NaN then process_cols eigh fmt matrices cols r out_row
      else (case orientation_cell eigh fmt matrices (str (r col)) of
              Inl e \<Rightarrow> Inl e
            | Inr s \<Rightarrow>
                process_cols eigh fmt matrices cols r
                  (out_row(col @ ''_orientations'' := Str s))))"

text \<open>
  Lines 285 to 324: one row. \<^verbatim>\<open>row['Filename']\<close> raises KeyError when the table has no
  such column; a missing file name and a file that does not exist skip the row; a file
  name that is not a string has no method \<^verbatim>\<open>replace\<close>, and the call raises
  AttributeError.
\<close>

definition process_row ::
    "(matrix \<Rightarrow> vec3 \<times> mat3) \<Rightarrow> (pyfloat \<Rightarrow> string) \<Rightarrow> (string \<rightharpoonup> string list) \<Rightarrow> string \<Rightarrow>
     dataframe \<Rightarrow> row \<Rightarrow> row \<Rightarrow> error + row" where
  "process_row eigh fmt files orca_folder_path input_data r out_row =
     (if ''Filename'' \<notin> set (columns input_data) then Inl KeyError
      else (case r ''Filename'' of
              NaN \<Rightarrow> Inr out_row
            | NonStr s \<Rightarrow> Inl AttributeError
            | Str filename \<Rightarrow>
                (let orca_file_path =
                       path_join orca_folder_path (replace ''.xyz'' ''_input.inp.out'' filename)
                 in case files orca_file_path of
                      None \<Rightarrow> Inr out_row
                    | Some content \<Rightarrow>
                        (case extract_raw_efg_matrices content of
                           Inl e \<Rightarrow> Inl e
                         | Inr matrices \<Rightarrow>
                             process_cols eigh fmt matrices (hydride_cols input_data) r out_row))))"

text \<open>The loop over the rows: row \<open>idx\<close> of the output is written from row \<open>idx\<close> of the input.\<close>

fun process_rows ::
    "(matrix \<Rightarrow> vec3 \<times> mat3) \<Rightarrow> (pyfloat \<Rightarrow> string) \<Rightarrow> (string \<rightharpoonup> string list) \<Rightarrow> string \<Rightarrow>
     dataframe \<Rightarrow> row list \<Rightarrow> error + row list" where
  "process_rows eigh fmt files orca_folder_path input_data [] = Inr []"
| "process_rows eigh fmt files orca_folder_path input_data (r # rs) =
     (case process_row eigh fmt files orca_folder_path input_data r
             (new_row (hydride_cols input_data) r) of
        Inl e \<Rightarrow> Inl e
      | Inr out_row \<Rightarrow>
          (case process_rows eigh fmt files orca_folder_path input_data rs of
             Inl e \<Rightarrow> Inl e
           | Inr out_rows \<Rightarrow> Inr (out_row # out_rows)))"

text \<open>The function returns the table it writes; an exception leaves no output file.\<close>

definition process_hydride_orientations_csv ::
    "(matrix \<Rightarrow> vec3 \<times> mat3) \<Rightarrow> (pyfloat \<Rightarrow> string) \<Rightarrow> (string \<rightharpoonup> string list) \<Rightarrow> string \<Rightarrow>
     dataframe \<Rightarrow> error + dataframe" where
  "process_hydride_orientations_csv eigh fmt files orca_folder_path input_data =
     (case process_rows eigh fmt files orca_folder_path input_data (rows input_data) of
        Inl e \<Rightarrow> Inl e
      | Inr out_rows \<Rightarrow>
          Inr \<lparr>columns = new_columns (columns input_data) (hydride_cols input_data),
               rows = out_rows\<rparr>)"

subsection \<open>Notions used in the statements about the Block Locator\<close>

text \<open>
  They are defined through the functions above: the nucleus index the digits of a
  marker line denote, whether the digits of a line are within the limit of \<^verbatim>\<open>int\<close>
  (a line that is no marker line is), the values of the float tokens of a line, whether
  a line has exactly three float tokens, and whether a line has the tensor-data marker.
\<close>

definition marker_index :: "string \<Rightarrow> int option" where
  "marker_index line = map_option (\<lambda>group1. int (digits_val group1)) (search_nucleus line)"

definition marker_ok :: "string \<Rightarrow> bool" where
  "marker_ok line =
     (case search_nucleus line of None \<Rightarrow> True | Some group1 \<Rightarrow> length group1 \<le> max_str_digits)"

definition float_value :: "string \<Rightarrow> pyfloat" where
  "float_value tok = (case py_float tok of Inr x \<Rightarrow> x | Inl e \<Rightarrow> F 0)"

definition row_values :: "string \<Rightarrow> pyfloat list" where
  "row_values line = map float_value (findall_floats line)"

definition three_floats :: "string \<Rightarrow> bool" where
  "three_floats line = (length (findall_floats line) = 3)"

definition raw_marker :: "string \<Rightarrow> bool" where
  "raw_marker line = contains ''Raw EFG matrix'' line"

subsection \<open>Notions used in the statements about the drivers\<close>

text \<open>
  The separator of the groups of a cell, its non-empty entries, whether every token of
  these entries is accepted by \<^verbatim>\<open>int\<close>, the groups of indices the cell denotes then,
  the lines of the ORCA output file of a row, if the row names one that exists, and the
  matrices of a file.
\<close>

definition cell_separator :: "string \<Rightarrow> char" where
  "cell_separator text = (if CHR '';'' \<in> set text then CHR '';'' else CHR '','')"

definition cell_entries :: "string \<Rightarrow> string list" where
  "cell_entries text = filter (\<lambda>entry. entry \<noteq> []) (split_on (cell_separator text) text)"

definition int_ok :: "string \<Rightarrow> bool" where
  "int_ok tok = (case py_int tok of Inr n \<Rightarrow> True | Inl e \<Rightarrow> False)"

definition int_value :: "string \<Rightarrow> int" where
  "int_value tok = (case py_int tok of Inr n \<Rightarrow> n | Inl e \<Rightarrow> 0)"

definition wellformed_cell :: "string \<Rightarrow> bool" where
  "wellformed_cell text =
     list_all (\<lambda>entry. list_all int_ok (split_on CHR '','' entry)) (cell_entries text)"

definition cell_groups :: "string \<Rightarrow> int list list" where
  "cell_groups text = map (\<lambda>entry. map int_value (split_on CHR '','' entry)) (cell_entries text)"

definition row_file :: "(string \<rightharpoonup> string list) \<Rightarrow> string \<Rightarrow> row \<Rightarrow> string list option" where
  "row_file files orca_folder_path r =
     (case r ''Filename'' of
        Str filename \<Rightarrow>
          files (path_join orca_folder_path (replace ''.xyz'' ''_input.inp.out'' filename))
      | NaN \<Rightarrow> None
      | NonStr s \<Rightarrow> None)"

definition matrices_of :: "string list \<Rightarrow> (int option \<rightharpoonup> matrix)" where
  "matrices_of content =
     (case extract_raw_efg_matrices content of Inr matrices \<Rightarrow> matrices | Inl e \<Rightarrow> Map.empty)"

subsection \<open>The contract of the eigensolver\<close>

text \<open>
  What the documentation of \<^verbatim>\<open>np.linalg.eigh\<close> promises of its result \<open>(w, v)\<close> for a
  symmetric matrix: the eigenvalues \<open>w\<close> are in ascending order, and the column
  \<open>v[:, i]\<close> is the normalized eigenvector of the eigenvalue \<open>w[i]\<close>; eigenvectors of
  a symmetric matrix are pairwise orthogonal. This is the assumption about the library
  under which the claims about symmetric matrices are stated; it is not code of the
  repository. It speaks of the values of the floats.
\<close>

type_synonym rvec3 = "real \<times> real \<times> real"

fun fvalues :: "vec3 \<Rightarrow> rvec3" where
  "fvalues (a, b, c) = (fval a, fval b, fval c)"

fun scale :: "pyfloat \<Rightarrow> vec3 \<Rightarrow> rvec3" where
  "scale s (a, b, c) = (fval s * fval a, fval s * fval b, fval s * fval c)"

fun row3 :: "pyfloat list \<Rightarrow> vec3" where
  "row3 r = (r ! 0, r ! 1, r ! 2)"

fun mat_vec :: "matrix \<Rightarrow> vec3 \<Rightarrow> rvec3" where
  "mat_vec M v =
     (fval (np_dot (row3 (M ! 0)) v), fval (np_dot (row3 (M ! 1)) v), fval (np_dot (row3 (M ! 2)) v))"

fun ascending :: "vec3 \<Rightarrow> bool" where
  "ascending (a, b, c) = (fval a \<le> fval b \<and> fval b \<le> fval c)"

definition orthonormal_columns :: "mat3 \<Rightarrow> bool" where
  "orthonormal_columns v =
     (\<forall>i<3. \<forall>j<3. fval (np_dot (column v i) (column v j)) = (if i = j then 1 else 0))"

definition eigh_spec :: "matrix \<Rightarrow> vec3 \<times> mat3 \<Rightarrow> bool" where
  "eigh_spec M r =
     (case r of (w, v) \<Rightarrow>
        ascending w \<and> orthonormal_columns v \<and>
        (\<forall>i<3. mat_vec M (column v i) = scale (tolist w ! i) (column v i)))"

section \<open>Properties\<close>

lemma upt3: "[0..<3] = [0, 1, 2::nat]"
  by (simp add: upt_rec)

lemma all_lt3: "(\<forall>i<3. P i) = (P 0 \<and> P 1 \<and> P (2::nat))"
proof -
  have "i < 3 \<longleftrightarrow> i = 0 \<or> i = 1 \<or> i = 2" for i :: nat by auto
  then show ?thesis by auto
qed

text \<open>The value of the result of an operation is the result of the operation on the values.\<close>

lemma fval_fmul: "fval (fmul a b) = fval a * fval b"
  by (simp add: fmul_def)

lemma fval_fadd: "fval (fadd a b) = fval a + fval b"
  by (simp add: fadd_def)

lemma fval_fneg: "fval (fneg a) = - fval a"
  by (cases a) simp_all

lemma fval_fsub: "fval (fsub a b) = fval a - fval b"
  by (simp add: fsub_def fval_fadd fval_fneg)

lemma fval_fabs: "fval (fabs a) = \<bar>fval a\<bar>"
  by (simp add: fabs_def)

lemmas fval_ops = fval_fmul fval_fadd fval_fneg fval_fsub fval_fabs

lemma fval_np_dot:
  "fval (np_dot (a1, a2, a3) (b1, b2, b3)) = fval a1 * fval b1 + fval a2 * fval b2 + fval a3 * fval b3"
  by (simp add: fval_ops)

lemma np_argmax_lt3: "np_argmax v < 3"
  by (cases v) auto

lemma other_indices_cases:
  "k < 3 \<Longrightarrow> filter (\<lambda>i. i \<noteq> k) [0..<3] =
     (if k = 0 then [1, 2] else if k = 1 then [0, 2] else [0, 1])"
  by (auto simp: upt3)

text \<open>The body of the resolver for a present matrix, with the local names unfolded.\<close>

lemma gco_Some:
  "eigh m = (eigvals, eigvecs) \<Longrightarrow>
   get_canonical_orientation eigh (Some m) =
     [(''X'', column eigvecs (filter (\<lambda>i. i \<noteq> np_argmax (np_abs eigvals)) [0..<3] ! 0)),
      (''Y'', if flt (np_dot (np_cross (column eigvecs (np_argmax (np_abs eigvals)))
                          (column eigvecs (filter (\<lambda>i. i \<noteq> np_argmax (np_abs eigvals)) [0..<3] ! 0)))
                    (column eigvecs (filter (\<lambda>i. i \<noteq> np_argmax (np_abs eigvals)) [0..<3] ! 1))) (F 0)
              then neg (np_cross (column eigvecs (np_argmax (np_abs eigvals)))
                          (column eigvecs (filter (\<lambda>i. i \<noteq> np_argmax (np_abs eigvals)) [0..<3] ! 0)))
              else np_cross (column eigvecs (np_argmax (np_abs eigvals)))
                          (column eigvecs (filter (\<lambda>i. i \<noteq> np_argmax (np_abs eigvals)) [0..<3] ! 0))),
      (''Z'', column eigvecs (np_argmax (np_abs eigvals)))]"
  unfolding get_canonical_orientation_def Let_def option.case by simp

lemma gco_Some_shape:
  "\<exists>x y z. get_canonical_orientation eigh (Some m) = [(''X'', x), (''Y'', y), (''Z'', z)]"
  unfolding get_canonical_orientation_def Let_def split_def option.case by blast

lemma format_full_dict:
  "format_orientation_output fmt [(''X'', x), (''Y'', y), (''Z'', z)] =
     axis_str fmt ''X'' x @ '';'' @ axis_str fmt ''Y'' y @ '';'' @ axis_str fmt ''Z'' z"
  by (simp add: format_orientation_output_def)

lemma format_empty_dict: "format_orientation_output fmt [] = ''N/A''"
  by (simp add: format_orientation_output_def)

lemma axis_str_X_ne: "axis_str fmt ''X'' x @ rest \<noteq> ''N/A''"
  by (simp add: axis_str_def)

lemma format_present_not_NA:
  "format_orientation_output fmt (get_canonical_orientation eigh (Some m)) \<noteq> ''N/A''"
proof -
  obtain x y z where "get_canonical_orientation eigh (Some m) = [(''X'', x), (''Y'', y), (''Z'', z)]"
    using gco_Some_shape by blast
  then show ?thesis
    by (simp only: format_full_dict axis_str_X_ne not_False_eq_True)
qed

lemma gco_None: "get_canonical_orientation eigh None = []"
  by (simp add: get_canonical_orientation_def)

subsection \<open>The Orientation Resolver\<close>

lemma argmax_abs_first_max:
  "(\<forall>j<3. \<bar>fval (tolist v ! j)\<bar> \<le> \<bar>fval (tolist v ! np_argmax (np_abs v))\<bar>) \<and>
   (\<forall>j<np_argmax (np_abs v). \<bar>fval (tolist v ! j)\<bar> < \<bar>fval (tolist v ! np_argmax (np_abs v))\<bar>)"
proof -
  obtain a b c where v: "v = (a, b, c)" by (cases v) auto
  show ?thesis
    unfolding v all_lt3 by (auto simp: less_Suc_eq flt_def fval_fabs)
qed

lemma sq_eq_1: "x * x = (1::real) \<Longrightarrow> x = 1 \<or> x = - 1"
proof -
  assume "x * x = 1"
  then have "(x - 1) * (x + 1) = 0" by (simp add: algebra_simps)
  then show ?thesis by auto
qed

lemma diag_eigvec:
  fixes x y z w :: real
  assumes "x = w * x" "- 5 * y = w * y" "3 * z = w * z" "x * x + y * y + z * z = 1"
  shows "(w = 1 \<and> y = 0 \<and> z = 0 \<and> (x = 1 \<or> x = - 1)) \<or>
         (w = - 5 \<and> x = 0 \<and> z = 0 \<and> (y = 1 \<or> y = - 1)) \<or>
         (w = 3 \<and> x = 0 \<and> y = 0 \<and> (z = 1 \<or> z = - 1))"
proof -
  from assms(1) have "(w - 1) * x = 0" by (simp add: algebra_simps)
  then have x: "x = 0 \<or> w = 1" by auto
  from assms(2) have "(w + 5) * y = 0" by (simp add: algebra_simps)
  then have y: "y = 0 \<or> w = - 5" by auto
  from assms(3) have "(w - 3) * z = 0" by (simp add: algebra_simps)
  then have z: "z = 0 \<or> w = 3" by auto
  consider "w = 1" | "w = - 5" | "w = 3" | "w \<noteq> 1" "w \<noteq> - 5" "w \<noteq> 3" by blast
  then show ?thesis
  proof cases
    case 1
    with y z have "y = 0" "z = 0" by auto
    with assms(4) have "x * x = 1" by simp
    with 1 \<open>y = 0\<close> \<open>z = 0\<close> show ?thesis using sq_eq_1 by blast
  next
    case 2
    with x z have "x = 0" "z = 0" by auto
    with assms(4) have "y * y = 1" by simp
    with 2 \<open>x = 0\<close> \<open>z = 0\<close> show ?thesis using sq_eq_1 by blast
  next
    case 3
    with x y have "x = 0" "y = 0" by auto
    with assms(4) have "z * z = 1" by simp
    with 3 \<open>x = 0\<close> \<open>y = 0\<close> show ?thesis using sq_eq_1 by blast
  next
    case 4
    with x y z have "x = 0" "y = 0" "z = 0" by auto
    with assms(4) show ?thesis by simp
  qed
qed

lemma eigh_spec_diag:
  assumes "eigh_spec [[F 1, F 0, F 0], [F 0, F (- 5), F 0], [F 0, F 0, F 3]] (w, V)"
  shows "fvalues w = (- 5, 1, 3) \<and>
         (fvalues (column V 0) = (0, 1, 0) \<or> fvalues (column V 0) = (0, - 1, 0))"
proof -
  obtain a' b' c' d' e' f' g' h' i' where V: "V = ((a', b', c'), (d', e', f'), (g', h', i'))"
    by (metis prod_cases3)
  obtain w0' w1' w2' where w: "w = (w0', w1', w2')" by (metis prod_cases3)
  define a b c d e f g h i where
    vs: "a = fval a'" "b = fval b'" "c = fval c'" "d = fval d'" "e = fval e'" "f = fval f'"
      "g = fval g'" "h = fval h'" "i = fval i'"
  define w0 w1 w2 where ws: "w0 = fval w0'" "w1 = fval w1'" "w2 = fval w2'"
  from assms have asc: "w0 \<le> w1" "w1 \<le> w2"
    by (simp_all add: eigh_spec_def w ws)
  from assms have on: "orthonormal_columns V" by (simp add: eigh_spec_def)
  from on have n0: "a * a + d * d + g * g = 1" and n1: "b * b + e * e + h * h = 1"
    and n2: "c * c + f * f + i * i = 1"
    and o01: "a * b + d * e + g * h = 0" and o02: "a * c + d * f + g * i = 0"
    and o12: "b * c + e * f + h * i = 0"
    by (simp_all add: orthonormal_columns_def all_lt3 V fval_ops vs)
  from assms have ev: "\<forall>k<3. mat_vec [[F 1, F 0, F 0], [F 0, F (- 5), F 0], [F 0, F 0, F 3]] (column V k)
      = scale (tolist w ! k) (column V k)"
    by (simp add: eigh_spec_def)
  from ev have e0: "a = w0 * a" "- 5 * d = w0 * d" "3 * g = w0 * g"
    and e1: "b = w1 * b" "- 5 * e = w1 * e" "3 * h = w1 * h"
    and e2: "c = w2 * c" "- 5 * f = w2 * f" "3 * i = w2 * i"
    unfolding all_lt3 by (simp_all add: V w fval_ops vs ws)
  note c0 = diag_eigvec [OF e0 n0]
  note c1 = diag_eigvec [OF e1 n1]
  note c2 = diag_eigvec [OF e2 n2]
  have w0: "w0 = - 5"
    using c0 c1 c2 asc o01 o02 o12 by auto
  with c0 have "d = 1 \<or> d = - 1" "a = 0" "g = 0" by auto
  moreover have "w1 = 1" using c0 c1 c2 asc o01 o02 o12 w0 by auto
  moreover have "w2 = 3" using c0 c1 c2 asc o01 o02 o12 w0 by auto
  ultimately show ?thesis using w0 unfolding vs ws by (auto simp: V w)
qed

lemma dot_cross_left: "fval (np_dot a (np_cross a b)) = 0"
  by (cases a, cases b) (simp add: fval_ops algebra_simps)

lemma dot_cross_right: "fval (np_dot b (np_cross a b)) = 0"
  by (cases a, cases b) (simp add: fval_ops algebra_simps)

lemma np_dot_commute: "fval (np_dot a b) = fval (np_dot b a)"
  by (cases a, cases b) (simp add: fval_ops algebra_simps)

lemma np_dot_neg_right: "fval (np_dot a (neg b)) = - fval (np_dot a b)"
  by (cases a, cases b) (simp add: fval_ops algebra_simps)

lemma np_dot_neg_left: "fval (np_dot (neg a) b) = - fval (np_dot a b)"
  by (cases a, cases b) (simp add: fval_ops algebra_simps)

lemma np_dot_neg_neg: "fval (np_dot (neg a) (neg a)) = fval (np_dot a a)"
  by (cases a) (simp add: fval_ops algebra_simps)

lemma np_cross_neg_right:
  "fval (np_dot c (np_cross a (neg b))) = - fval (np_dot c (np_cross a b))"
  by (cases a, cases b, cases c) (simp add: fval_ops algebra_simps)

lemma cross_norm:
  "fval (np_dot (np_cross a b) (np_cross a b)) =
     fval (np_dot a a) * fval (np_dot b b) - fval (np_dot a b) * fval (np_dot a b)"
  by (cases a, cases b) (simp add: fval_ops algebra_simps)

lemma triple_product:
  "fval (np_dot z (np_cross x (np_cross z x))) =
     fval (np_dot z z) * fval (np_dot x x) - fval (np_dot z x) * fval (np_dot z x)"
  by (cases z, cases x) (simp add: fval_ops algebra_simps)

text \<open>
  The frame built from two orthonormal vectors \<open>z\<close> and \<open>x\<close>: with \<open>y = z \<times> x\<close> it is
  orthonormal and right-handed; with \<open>y\<close> negated it is orthonormal and left-handed.
\<close>

lemma frame_unflipped:
  assumes "fval (np_dot z z) = 1" "fval (np_dot x x) = 1" "fval (np_dot z x) = 0"
  shows "fval (np_dot (np_cross z x) (np_cross z x)) = 1" "fval (np_dot x (np_cross z x)) = 0"
    "fval (np_dot (np_cross z x) z) = 0" "fval (np_dot z (np_cross x (np_cross z x))) = 1"
  using assms
  by (simp_all add: cross_norm triple_product dot_cross_right
      np_dot_commute [of "np_cross z x" z] dot_cross_left)

lemma frame_flipped:
  assumes "fval (np_dot z z) = 1" "fval (np_dot x x) = 1" "fval (np_dot z x) = 0"
  shows "fval (np_dot (neg (np_cross z x)) (neg (np_cross z x))) = 1"
    "fval (np_dot x (neg (np_cross z x))) = 0"
    "fval (np_dot (neg (np_cross z x)) z) = 0"
    "fval (np_dot z (np_cross x (neg (np_cross z x)))) = - 1"
  using assms
  by (simp_all add: np_dot_neg_left np_dot_neg_right np_dot_neg_neg np_cross_neg_right cross_norm
      triple_product dot_cross_right np_dot_commute [of "np_cross z x" z] dot_cross_left)

lemma orthonormal_columnsD:
  "orthonormal_columns V \<Longrightarrow> i < 3 \<Longrightarrow> j < 3 \<Longrightarrow>
     fval (np_dot (column V i) (column V j)) = (if i = j then 1 else 0)"
  by (simp add: orthonormal_columns_def)

text \<open>
  For an orthonormal eigenvector array the resolver's axes are of unit length and pairwise
  orthogonal, and \<open>Z \<cdot> (X \<times> Y)\<close> is \<open>+1\<close> when the handedness step leaves \<open>Y\<close> as it is and
  \<open>-1\<close> when the step negates \<open>Y\<close>.
\<close>

lemma orientation_orthonormal:
  assumes e: "eigh m = (eigvals, eigvecs)" and on: "orthonormal_columns eigvecs"
  shows "\<exists>X Y Z v2 flipped.
     get_canonical_orientation eigh (Some m) = [(''X'', X), (''Y'', Y), (''Z'', Z)] \<and>
     fval (np_dot X X) = 1 \<and> fval (np_dot Y Y) = 1 \<and> fval (np_dot Z Z) = 1 \<and>
     fval (np_dot X Y) = 0 \<and> fval (np_dot Y Z) = 0 \<and> fval (np_dot X Z) = 0 \<and>
     flipped = (fval (np_dot (np_cross Z X) v2) < 0) \<and>
     Y = (if flipped then neg (np_cross Z X) else np_cross Z X) \<and>
     fval (np_dot Z (np_cross X Y)) = (if flipped then - 1 else 1)"
proof -
  define k where "k = np_argmax (np_abs eigvals)"
  have k3: "k < 3" unfolding k_def by (rule np_argmax_lt3)
  define oi where "oi = filter (\<lambda>i. i \<noteq> k) [0..<3]"
  have oi: "oi = (if k = 0 then [1, 2] else if k = 1 then [0, 2] else [0, 1])"
    unfolding oi_def using k3 by (rule other_indices_cases)
  have idx: "oi ! 0 < 3" "oi ! 0 \<noteq> k"
    using k3 by (auto simp: oi)
  define Z where "Z = column eigvecs k"
  define X where "X = column eigvecs (oi ! 0)"
  define v2 where "v2 = column eigvecs (oi ! 1)"
  define Y where "Y = (if flt (np_dot (np_cross Z X) v2) (F 0) then neg (np_cross Z X) else np_cross Z X)"
  have g: "get_canonical_orientation eigh (Some m) = [(''X'', X), (''Y'', Y), (''Z'', Z)]"
    unfolding X_def Y_def Z_def v2_def oi_def k_def
    using e by (rule gco_Some [of eigh m eigvals eigvecs])
  have zz: "fval (np_dot Z Z) = 1" and xx: "fval (np_dot X X) = 1" and zx: "fval (np_dot Z X) = 0"
    unfolding Z_def X_def
    using orthonormal_columnsD [OF on k3 k3] orthonormal_columnsD [OF on idx(1) idx(1)]
      orthonormal_columnsD [OF on k3 idx(1)] idx(2)
    by simp_all
  have xz: "fval (np_dot X Z) = 0" using zx by (simp add: np_dot_commute [of X Z])
  show ?thesis
  proof (cases "fval (np_dot (np_cross Z X) v2) < 0")
    case True
    then have Y: "Y = neg (np_cross Z X)" by (simp add: Y_def flt_def)
    have "fval (np_dot Y Y) = 1" "fval (np_dot X Y) = 0" "fval (np_dot Y Z) = 0"
      "fval (np_dot Z (np_cross X Y)) = - 1"
      unfolding Y by (rule frame_flipped [OF zz xx zx])+
    moreover have "Y = (if True then neg (np_cross Z X) else np_cross Z X)" by (simp add: Y)
    moreover note g xx zz xz True
    ultimately show ?thesis
      by (intro exI [of _ X] exI [of _ Y] exI [of _ Z] exI [of _ v2] exI [of _ True]) simp
  next
    case False
    then have Y: "Y = np_cross Z X" by (simp add: Y_def flt_def)
    have "fval (np_dot Y Y) = 1" "fval (np_dot X Y) = 0" "fval (np_dot Y Z) = 0"
      "fval (np_dot Z (np_cross X Y)) = 1"
      unfolding Y by (rule frame_unflipped [OF zz xx zx])+
    moreover have "Y = (if False then neg (np_cross Z X) else np_cross Z X)" by (simp add: Y)
    moreover note g xx zz xz False
    ultimately show ?thesis
      by (intro exI [of _ X] exI [of _ Y] exI [of _ Z] exI [of _ v2] exI [of _ False]) simp
  qed
qed

text \<open>
  The matrix \<open>diag(1, -5, 3)\<close> with the eigenvalues \<open>(-5, 1, 3)\<close> and the eigenvector columns
  \<open>(0,1,0)\<close>, \<open>(1,0,0)\<close>, \<open>(0,0,1)\<close>: a result the eigensolver's contract allows.
\<close>

lemma eigh_example_spec:
  "eigh_spec [[F 1, F 0, F 0], [F 0, F (- 5), F 0], [F 0, F 0, F 3]]
     ((F (- 5), F 1, F 3), ((F 0, F 1, F 0), (F 1, F 0, F 0), (F 0, F 0, F 1)))"
  by (simp add: eigh_spec_def orthonormal_columns_def all_lt3 fval_ops)

lemma gco_example:
  "get_canonical_orientation
      (\<lambda>m. ((F (- 5), F 1, F 3), ((F 0, F 1, F 0), (F 1, F 0, F 0), (F 0, F 0, F 1))))
      (Some [[F 1, F 0, F 0], [F 0, F (- 5), F 0], [F 0, F 0, F 3]]) =
     [(''X'', (F 1, F 0, F 0)), (''Y'', (NegZero, NegZero, F 1)), (''Z'', (F 0, F 1, F 0))]"
  by (subst gco_Some [of _ _ "(F (- 5), F 1, F 3)" "((F 0, F 1, F 0), (F 1, F 0, F 0), (F 0, F 0, F 1))"])
     (simp_all add: upt3 flt_def fmul_def fadd_def fsub_def fabs_def)

text \<open>
  Claim C1. The claim is that the returned frame is orthonormal and right-handed,
  \<open>Z \<cdot> (X \<times> Y) = +1\<close>, also when the handedness step negates Y. The resolver evaluated
  on \<open>diag(1, -5, 3)\<close> with the eigensolver result above: Z is \<open>(0,1,0)\<close>, X is \<open>(1,0,0)\<close>,
  \<open>Z \<times> X = (0,0,-1)\<close> has a negative dot product with \<open>v2 = (0,0,1)\<close> and is negated to
  \<open>(-0,-0,1)\<close>, and the returned frame has \<open>Z \<cdot> (X \<times> Y) = -1\<close>: it is orthonormal and
  left-handed.
\<close>

theorem diag_frame_left_handed:
  "eigh_spec [[F 1, F 0, F 0], [F 0, F (- 5), F 0], [F 0, F 0, F 3]]
     ((F (- 5), F 1, F 3), ((F 0, F 1, F 0), (F 1, F 0, F 0), (F 0, F 0, F 1))) \<and>
   get_canonical_orientation
      (\<lambda>m. ((F (- 5), F 1, F 3), ((F 0, F 1, F 0), (F 1, F 0, F 0), (F 0, F 0, F 1))))
      (Some [[F 1, F 0, F 0], [F 0, F (- 5), F 0], [F 0, F 0, F 3]]) =
     [(''X'', (F 1, F 0, F 0)), (''Y'', (NegZero, NegZero, F 1)), (''Z'', (F 0, F 1, F 0))] \<and>
   fval (np_dot (F 0, F 1, F 0) (np_cross (F 1, F 0, F 0) (NegZero, NegZero, F 1))) = - 1"
  using eigh_example_spec gco_example by (simp add: fval_ops)

theorem diag_frame_left_handed_witness:
  "map_of (get_canonical_orientation
      (\<lambda>m. ((F (- 5), F 1, F 3), ((F 0, F 1, F 0), (F 1, F 0, F 0), (F 0, F 0, F 1))))
      (Some [[F 1, F 0, F 0], [F 0, F (- 5), F 0], [F 0, F 0, F 3]])) ''Y''
     = Some (NegZero, NegZero, F 1)"
  using diag_frame_left_handed by simp

text \<open>
  Claim C2. The Z axis is column \<open>k\<close> of the eigenvector array, where the absolute value of
  eigenvalue \<open>k\<close> is the greatest of the three and strictly greater than that of every
  eigenvalue of lower index (the first index of the maximum wins a tie); under the
  eigensolver's contract that column is an eigenvector of eigenvalue \<open>k\<close>. For the matrix
  \<open>diag(1, -5, 3)\<close> every eigensolver result the contract allows has the eigenvalues
  \<open>(-5, 1, 3)\<close>, and Z is \<open>(0, 1, 0)\<close> or \<open>(0, -1, 0)\<close>, the unit eigenvectors of \<open>-5\<close>.
\<close>

theorem z_axis_selection:
  "(eigh m = (eigvals, eigvecs) \<longrightarrow>
     (\<exists>k<3. map_of (get_canonical_orientation eigh (Some m)) ''Z'' = Some (column eigvecs k) \<and>
        (\<forall>j<3. \<bar>fval (tolist eigvals ! j)\<bar> \<le> \<bar>fval (tolist eigvals ! k)\<bar>) \<and>
        (\<forall>j<k. \<bar>fval (tolist eigvals ! j)\<bar> < \<bar>fval (tolist eigvals ! k)\<bar>) \<and>
        (eigh_spec m (eigvals, eigvecs) \<longrightarrow>
           mat_vec m (column eigvecs k) = scale (tolist eigvals ! k) (column eigvecs k)))) \<and>
   (eigh_spec [[F 1, F 0, F 0], [F 0, F (- 5), F 0], [F 0, F 0, F 3]]
        (eigh [[F 1, F 0, F 0], [F 0, F (- 5), F 0], [F 0, F 0, F 3]]) \<longrightarrow>
      fvalues (fst (eigh [[F 1, F 0, F 0], [F 0, F (- 5), F 0], [F 0, F 0, F 3]])) = (- 5, 1, 3) \<and>
      (\<exists>Z. map_of (get_canonical_orientation eigh
                (Some [[F 1, F 0, F 0], [F 0, F (- 5), F 0], [F 0, F 0, F 3]])) ''Z'' = Some Z \<and>
           (fvalues Z = (0, 1, 0) \<or> fvalues Z = (0, - 1, 0))))"
proof (intro conjI impI)
  assume e: "eigh m = (eigvals, eigvecs)"
  define k where "k = np_argmax (np_abs eigvals)"
  have k3: "k < 3" unfolding k_def by (rule np_argmax_lt3)
  have z: "map_of (get_canonical_orientation eigh (Some m)) ''Z'' = Some (column eigvecs k)"
    unfolding k_def by (subst gco_Some [of eigh m eigvals eigvecs, OF e]) simp
  have ev: "mat_vec m (column eigvecs k) = scale (tolist eigvals ! k) (column eigvecs k)"
    if "eigh_spec m (eigvals, eigvecs)"
    using that k3 by (simp add: eigh_spec_def)
  show "\<exists>k<3. map_of (get_canonical_orientation eigh (Some m)) ''Z'' = Some (column eigvecs k) \<and>
        (\<forall>j<3. \<bar>fval (tolist eigvals ! j)\<bar> \<le> \<bar>fval (tolist eigvals ! k)\<bar>) \<and>
        (\<forall>j<k. \<bar>fval (tolist eigvals ! j)\<bar> < \<bar>fval (tolist eigvals ! k)\<bar>) \<and>
        (eigh_spec m (eigvals, eigvecs) \<longrightarrow>
           mat_vec m (column eigvecs k) = scale (tolist eigvals ! k) (column eigvecs k))"
    using k3 z ev argmax_abs_first_max [of eigvals] unfolding k_def by blast
next
  let ?D = "[[F 1, F 0, F 0], [F 0, F (- 5), F 0], [F 0, F 0, F 3]]"
  assume s: "eigh_spec ?D (eigh ?D)"
  obtain w V where wV: "eigh ?D = (w, V)" by (cases "eigh ?D")
  from s have d: "fvalues w = (- 5, 1, 3)"
      "fvalues (column V 0) = (0, 1, 0) \<or> fvalues (column V 0) = (0, - 1, 0)"
    using eigh_spec_diag [of w V] unfolding wV by simp_all
  show "fvalues (fst (eigh ?D)) = (- 5, 1, 3)" by (simp add: wV d(1))
  obtain w0 w1 w2 where w: "w = (w0, w1, w2)" by (metis prod_cases3)
  from d(1) have a: "np_argmax (np_abs w) = 0"
    by (simp add: w flt_def fval_fabs)
  have "map_of (get_canonical_orientation eigh (Some ?D)) ''Z'' = Some (column V 0)"
    by (subst gco_Some [of eigh ?D w V, OF wV]) (simp add: a)
  with d(2) show "\<exists>Z. map_of (get_canonical_orientation eigh (Some ?D)) ''Z'' = Some Z \<and>
       (fvalues Z = (0, 1, 0) \<or> fvalues Z = (0, - 1, 0))"
    by blast
qed

theorem z_axis_selection_witness:
  "fvalues (fst ((\<lambda>m. ((F (- 5), F 1, F 3), ((F 0, F 1, F 0), (F 1, F 0, F 0), (F 0, F 0, F 1))))
       [[F 1, F 0, F 0], [F 0, F (- 5), F 0], [F 0, F 0, F 3]])) = (- 5, 1, 3) \<and>
   map_of (get_canonical_orientation
      (\<lambda>m. ((F (- 5), F 1, F 3), ((F 0, F 1, F 0), (F 1, F 0, F 0), (F 0, F 0, F 1))))
      (Some [[F 1, F 0, F 0], [F 0, F (- 5), F 0], [F 0, F 0, F 3]])) ''Z'' = Some (F 0, F 1, F 0)"
  using z_axis_selection
      [of "\<lambda>m. ((F (- 5), F 1, F 3), ((F 0, F 1, F 0), (F 1, F 0, F 0), (F 0, F 0, F 1)))"
        "[[F 1, F 0, F 0], [F 0, F (- 5), F 0], [F 0, F 0, F 3]]" "(F (- 5), F 1, F 3)"
        "((F 0, F 1, F 0), (F 1, F 0, F 0), (F 0, F 0, F 1))"]
    eigh_example_spec
  by (simp add: gco_example)

text \<open>
  Claim C3. With \<open>k\<close> the index selected for Z, the resolver returns X as the remaining
  eigenvector of lower index \<open>i1\<close>, Y as the cross product \<open>Z \<times> X\<close>, negated if and only if
  its dot product with the remaining eigenvector of higher index \<open>i2\<close> is negative, and Z as
  eigenvector \<open>k\<close>; the returned dict holds exactly these three vectors, with no
  renormalization and no reordering.
\<close>

theorem axes_assignment:
  "eigh m = (eigvals, eigvecs) \<Longrightarrow>
   \<exists>k i1 i2. k = np_argmax (np_abs eigvals) \<and> k < 3 \<and> i1 < i2 \<and> i2 < 3 \<and> i1 \<noteq> k \<and> i2 \<noteq> k \<and>
     get_canonical_orientation eigh (Some m) =
       [(''X'', column eigvecs i1),
        (''Y'', if fval (np_dot (np_cross (column eigvecs k) (column eigvecs i1)) (column eigvecs i2)) < 0
                then neg (np_cross (column eigvecs k) (column eigvecs i1))
                else np_cross (column eigvecs k) (column eigvecs i1)),
        (''Z'', column eigvecs k)]"
proof -
  assume e: "eigh m = (eigvals, eigvecs)"
  define k where "k = np_argmax (np_abs eigvals)"
  have k3: "k < 3" unfolding k_def by (rule np_argmax_lt3)
  define oi where "oi = filter (\<lambda>i. i \<noteq> k) [0..<3]"
  have oi: "oi = (if k = 0 then [1, 2] else if k = 1 then [0, 2] else [0, 1])"
    unfolding oi_def using k3 by (rule other_indices_cases)
  have idx: "oi ! 0 < oi ! 1 \<and> oi ! 1 < 3 \<and> oi ! 0 \<noteq> k \<and> oi ! 1 \<noteq> k"
    using k3 by (auto simp: oi)
  have "get_canonical_orientation eigh (Some m) =
       [(''X'', column eigvecs (oi ! 0)),
        (''Y'', if flt (np_dot (np_cross (column eigvecs k) (column eigvecs (oi ! 0))) (column eigvecs (oi ! 1))) (F 0)
                then neg (np_cross (column eigvecs k) (column eigvecs (oi ! 0)))
                else np_cross (column eigvecs k) (column eigvecs (oi ! 0))),
        (''Z'', column eigvecs k)]"
    unfolding oi_def k_def using e by (rule gco_Some [of eigh m eigvals eigvecs])
  then have "get_canonical_orientation eigh (Some m) =
       [(''X'', column eigvecs (oi ! 0)),
        (''Y'', if fval (np_dot (np_cross (column eigvecs k) (column eigvecs (oi ! 0))) (column eigvecs (oi ! 1))) < 0
                then neg (np_cross (column eigvecs k) (column eigvecs (oi ! 0)))
                else np_cross (column eigvecs k) (column eigvecs (oi ! 0))),
        (''Z'', column eigvecs k)]"
    by (simp add: flt_def)
  with idx k3 show ?thesis
    unfolding k_def by blast
qed

theorem axes_assignment_witness:
  "get_canonical_orientation
      (\<lambda>m. ((F (- 5), F 1, F 3), ((F 0, F 1, F 0), (F 1, F 0, F 0), (F 0, F 0, F 1))))
      (Some [[F 1, F 0, F 0], [F 0, F (- 5), F 0], [F 0, F 0, F 3]]) =
     [(''X'', (F 1, F 0, F 0)), (''Y'', (NegZero, NegZero, F 1)), (''Z'', (F 0, F 1, F 0))]"
proof -
  let ?V = "((F 0, F 1, F 0), (F 1, F 0, F 0), (F 0, F 0, F 1))"
  have a: "np_argmax (np_abs (F (- 5), F 1, F 3)) = 0" by (simp add: flt_def fabs_def)
  from axes_assignment [of "\<lambda>m. ((F (- 5), F 1, F 3), ?V)"
      "[[F 1, F 0, F 0], [F 0, F (- 5), F 0], [F 0, F 0, F 3]]" "(F (- 5), F 1, F 3)" ?V]
  obtain k i1 i2 :: nat where
    h: "k = 0" "i1 < i2" "i2 < 3" "i1 \<noteq> k" "i2 \<noteq> k"
    and g: "get_canonical_orientation (\<lambda>m. ((F (- 5), F 1, F 3), ?V))
        (Some [[F 1, F 0, F 0], [F 0, F (- 5), F 0], [F 0, F 0, F 3]]) =
       [(''X'', column ?V i1),
        (''Y'', if fval (np_dot (np_cross (column ?V k) (column ?V i1)) (column ?V i2)) < 0
                then neg (np_cross (column ?V k) (column ?V i1))
                else np_cross (column ?V k) (column ?V i1)),
        (''Z'', column ?V k)]"
    unfolding a by blast
  from h have "i1 = 1" "i2 = 2" by auto
  with g h(1) show ?thesis by (simp add: fmul_def fadd_def fsub_def)
qed

text \<open>
  Claim C5. Resolving the orientation of a nucleus index that is not a key of the Block
  Locator's mapping (lookup, resolver on the absent matrix, formatter) gives exactly the
  string N/A; no step of the three can raise. The sentinel appears in no other case: for a
  present matrix the formatted result is never N/A.
\<close>

theorem absent_index_gives_NA:
  "(Some hydride_idx \<notin> dom matrices \<longrightarrow>
      get_canonical_orientation eigh (matrices (Some hydride_idx)) = [] \<and>
      resolve_orientation eigh fmt matrices hydride_idx = ''N/A'') \<and>
   (resolve_orientation eigh fmt matrices hydride_idx = ''N/A''
      \<longleftrightarrow> Some hydride_idx \<notin> dom matrices)"
proof (cases "matrices (Some hydride_idx)")
  case None
  then show ?thesis
    by (simp add: resolve_orientation_def gco_None format_empty_dict dom_def)
next
  case (Some m)
  then show ?thesis
    using format_present_not_NA [of fmt eigh m]
    by (simp add: resolve_orientation_def dom_def)
qed

theorem absent_index_gives_NA_witness:
  "resolve_orientation
     (\<lambda>m. ((F (- 5), F 1, F 3), ((F 0, F 1, F 0), (F 1, F 0, F 0), (F 0, F 0, F 1))))
     (\<lambda>x. ''0.000000'') (Map.empty(Some 12 \<mapsto> [[F 1, F 0, F 0], [F 0, F 2, F 0], [F 0, F 0, F (- 5)]])) 7
     = ''N/A''"
  using absent_index_gives_NA
    [of 7 "Map.empty(Some 12 \<mapsto> [[F 1, F 0, F 0], [F 0, F 2, F 0], [F 0, F 0, F (- 5)]])"
        "\<lambda>m. ((F (- 5), F 1, F 3), ((F 0, F 1, F 0), (F 1, F 0, F 0), (F 0, F 0, F 1)))"
        "\<lambda>x. ''0.000000''"]
  by (simp add: dom_def)

subsection \<open>The Block Locator: its conversions\<close>

lemma digit_not_space: "is_digit c \<Longrightarrow> \<not> is_space c"
  by (auto simp: is_digit_def is_space_def)

lemma digit_not_num_space: "is_digit c \<Longrightarrow> \<not> is_num_space c"
  by (auto simp: is_digit_def is_num_space_def)

lemma digit_not_special:
  "is_digit c \<Longrightarrow> c \<noteq> CHR ''-'' \<and> c \<noteq> CHR ''+'' \<and> c \<noteq> CHR ''_'' \<and> c \<noteq> CHR ''.''"
  by (auto simp: is_digit_def)

lemma nucleus_match_at_digits:
  "nucleus_match_at s = Some g \<Longrightarrow> g \<noteq> [] \<and> list_all is_digit g"
  by (auto simp: nucleus_match_at_def Let_def list_all_iff split: if_splits
      dest: set_takeWhileD)

lemma search_nucleus_digits:
  "search_nucleus line = Some g \<Longrightarrow> g \<noteq> [] \<and> list_all is_digit g"
  by (induction line) (auto split: option.splits dest: nucleus_match_at_digits)

lemma dropWhile_id: "xs \<noteq> [] \<Longrightarrow> \<not> P (hd xs) \<Longrightarrow> dropWhile P xs = xs"
  by (cases xs) auto

lemma num_strip_id:
  assumes "s \<noteq> []" "\<not> is_num_space (hd s)" "\<not> is_num_space (last s)"
  shows "num_strip s = s"
proof -
  have "dropWhile is_num_space s = s" using assms by (simp add: dropWhile_id)
  moreover have "dropWhile is_num_space (rev s) = rev s"
    using assms by (simp add: dropWhile_id hd_rev)
  ultimately show ?thesis by (simp add: num_strip_def)
qed

lemma digits_us_ok_digits: "g \<noteq> [] \<Longrightarrow> list_all is_digit g \<Longrightarrow> digits_us_ok g"
  by (induction g rule: digits_us_ok.induct) (auto dest: digit_not_special)

lemma filter_digits: "list_all is_digit g \<Longrightarrow> filter (\<lambda>c. c \<noteq> CHR ''_'') g = g"
  by (induction g) (auto dest: digit_not_special)

text \<open>
  \<^verbatim>\<open>int\<close> on a group of digits, as the marker pattern captures it: the number the digits
  denote when there are at most \<open>max_str_digits\<close> of them, ValueError when there are more.
\<close>

lemma py_int_digits:
  assumes "g \<noteq> []" "list_all is_digit g"
  shows "py_int g =
    (if length g \<le> max_str_digits then Inr (int (digits_val g)) else Inl ValueError)"
proof -
  from assms have h: "is_digit (hd g)" and l: "is_digit (last g)"
    by (auto simp: list_all_iff)
  have s: "num_strip g = g"
    using assms(1) h l by (simp add: num_strip_id digit_not_num_space)
  from assms(1) h have t: "take 1 g \<noteq> ''-''" "take 1 g \<noteq> ''+''"
    by (cases g; auto dest: digit_not_special)+
  show ?thesis
    unfolding py_int_def s Let_def
    using t assms by (simp add: digits_us_ok_digits filter_digits)
qed

lemma marker_part_cases:
  "marker_part st line =
     (if marker_ok line
      then Inr (case marker_index line of
                  None \<Rightarrow> st
                | Some n \<Rightarrow> (if efg_section st
                              then st\<lparr>efg_section := False, efg_matrix_lines := []\<rparr>
                              else st)\<lparr>current_nucleus := Some n\<rparr>)
      else Inl ValueError)"
proof (cases "search_nucleus line")
  case None
  then show ?thesis by (simp add: marker_part_def marker_index_def marker_ok_def)
next
  case (Some g)
  then have "py_int g =
      (if length g \<le> max_str_digits then Inr (int (digits_val g)) else Inl ValueError)"
    using search_nucleus_digits py_int_digits by blast
  with Some show ?thesis by (simp add: marker_part_def marker_index_def marker_ok_def)
qed

lemma no_marker_ok: "marker_index line = None \<Longrightarrow> marker_ok line"
  by (simp add: marker_index_def marker_ok_def)

lemma float_match_at_form:
  assumes "float_match_at s = Some (tok, rest)"
  shows "\<exists>sg ip fp. tok = sg @ ip @ ''.'' @ fp \<and> (sg = [] \<or> sg = ''-'') \<and>
           ip \<noteq> [] \<and> list_all is_digit ip \<and> fp \<noteq> [] \<and> list_all is_digit fp"
proof -
  define sg where "sg = (if take 1 s = ''-'' then ''-'' else [])"
  define r0 where "r0 = drop (length sg) s"
  define ip where "ip = takeWhile is_digit r0"
  define fp where "fp = takeWhile is_digit (drop 1 (dropWhile is_digit r0))"
  from assms have "ip \<noteq> []" "fp \<noteq> []" "tok = sg @ ip @ ''.'' @ fp"
    unfolding float_match_at_def Let_def sg_def [symmetric] r0_def [symmetric]
      ip_def [symmetric] fp_def [symmetric]
    by (auto split: if_splits)
  moreover have "list_all is_digit ip" "list_all is_digit fp"
    unfolding ip_def fp_def by (auto simp: list_all_iff dest: set_takeWhileD)
  moreover have "sg = [] \<or> sg = ''-''" by (simp add: sg_def)
  ultimately show ?thesis by blast
qed

lemma py_float_token:
  assumes "sg = [] \<or> sg = ''-''" "ip \<noteq> []" "list_all is_digit ip" "fp \<noteq> []" "list_all is_digit fp"
  shows "py_float (sg @ ip @ ''.'' @ fp) =
           Inr (if sg = [] then F (real (digits_val ip) + real (digits_val fp) / 10 ^ length fp)
                else fneg (F (real (digits_val ip) + real (digits_val fp) / 10 ^ length fp)))"
proof -
  obtain d ds where ip: "ip = d # ds" using assms(2) by (cases ip) auto
  have d: "is_digit d" using assms(3) by (simp add: ip)
  have dne: "d \<noteq> CHR ''-''" "d \<noteq> CHR ''+''" using d by (auto dest: digit_not_special)
  have lfp: "is_digit (last fp)"
    using assms by (auto simp: list_all_iff)
  have ndot: "\<not> is_digit CHR ''.''" by (simp add: is_digit_def)
  have tw: "takeWhile is_digit (d # ds @ CHR ''.'' # fp) = d # ds"
    using assms(3) d ndot takeWhile_append2 [of "d # ds" is_digit "CHR ''.'' # fp"]
    by (simp add: list_all_iff ip)
  have dw: "dropWhile is_digit (d # ds @ CHR ''.'' # fp) = CHR ''.'' # fp"
    using assms(3) d ndot dropWhile_append2 [of "d # ds" is_digit "CHR ''.'' # fp"]
    by (simp add: list_all_iff ip)
  have nsp: "\<not> is_num_space (CHR ''-'')" by (simp add: is_num_space_def)
  from assms(1) show ?thesis
  proof
    assume sg: "sg = []"
    have st: "num_strip (d # ds @ CHR ''.'' # fp) = d # ds @ CHR ''.'' # fp"
      by (rule num_strip_id) (use assms(4) d lfp in \<open>auto simp: digit_not_num_space\<close>)
    show ?thesis
      unfolding py_float_def sg ip
      using dne assms(4,5) by (simp add: st Let_def tw dw del: takeWhile.simps dropWhile.simps)
  next
    assume sg: "sg = ''-''"
    have st: "num_strip (CHR ''-'' # d # ds @ CHR ''.'' # fp) = CHR ''-'' # d # ds @ CHR ''.'' # fp"
      by (rule num_strip_id) (use assms(4) nsp lfp in \<open>auto simp: digit_not_num_space\<close>)
    show ?thesis
      unfolding py_float_def sg ip
      using assms(4,5) by (simp add: st Let_def tw dw del: takeWhile.simps dropWhile.simps)
  qed
qed

lemma float_match_at_parses:
  "float_match_at s = Some (tok, rest) \<Longrightarrow> \<exists>x. py_float tok = Inr x"
  using float_match_at_form [of s tok rest] py_float_token by blast

lemma findall_floats_parse:
  "tok \<in> set (findall_floats s) \<Longrightarrow> \<exists>x. py_float tok = Inr x"
proof (induction s rule: findall_floats.induct)
  case 1
  then show ?case by simp
next
  case (2 c cs)
  show ?case
  proof (cases "float_match_at (c # cs)")
    case None
    with "2.IH" "2.prems" show ?thesis by simp
  next
    case (Some p)
    obtain t rest where p: "p = (t, rest)" by (cases p)
    from "2.prems" Some p have "tok = t \<or> tok \<in> set (findall_floats rest)" by simp
    then show ?thesis
    proof
      assume "tok = t"
      with Some p show ?thesis using float_match_at_parses by blast
    next
      assume "tok \<in> set (findall_floats rest)"
      with "2.IH" Some p show ?thesis by blast
    qed
  qed
qed

lemma map_float_total:
  "(\<And>t. t \<in> set toks \<Longrightarrow> \<exists>x. py_float t = Inr x) \<Longrightarrow>
     map_float toks = Inr (map float_value toks)"
proof (induction toks)
  case Nil
  then show ?case by simp
next
  case (Cons t toks)
  from Cons.prems obtain x where x: "py_float t = Inr x" by auto
  have "map_float toks = Inr (map float_value toks)"
    using Cons by simp
  with x show ?case by (simp add: float_value_def)
qed

lemma map_float_findall: "map_float (findall_floats line) = Inr (row_values line)"
  unfolding row_values_def by (rule map_float_total) (rule findall_floats_parse)

lemma collect_part_total:
  "collect_part st line =
     Inr (if efg_section st \<and> length (efg_matrix_lines st) < 3 \<and> three_floats line
          then (if length (efg_matrix_lines st) = 2
                then st\<lparr>raw_efg_matrices :=
                          (raw_efg_matrices st)(current_nucleus st \<mapsto>
                             efg_matrix_lines st @ [row_values line]),
                        current_nucleus := None, efg_section := False, efg_matrix_lines := []\<rparr>
                else st\<lparr>efg_matrix_lines := efg_matrix_lines st @ [row_values line]\<rparr>)
          else st)"
  by (simp add: collect_part_def Let_def three_floats_def map_float_findall)

text \<open>
  One step of the loop raises exactly when the line is a marker line whose digits are
  beyond the limit of \<^verbatim>\<open>int\<close>.
\<close>

lemma locator_step_cases:
  "locator_step st line =
     (if marker_ok line
      then Inr (let st1 = (case marker_index line of
                       None \<Rightarrow> st
                     | Some n \<Rightarrow> (if efg_section st
                                   then st\<lparr>efg_section := False, efg_matrix_lines := []\<rparr>
                                   else st)\<lparr>current_nucleus := Some n\<rparr>)
          in if current_nucleus st1 \<noteq> None \<and> raw_marker line
             then st1\<lparr>efg_section := True, efg_matrix_lines := []\<rparr>
             else if efg_section st1 \<and> length (efg_matrix_lines st1) < 3 \<and> three_floats line
             then (if length (efg_matrix_lines st1) = 2
                   then st1\<lparr>raw_efg_matrices :=
                             (raw_efg_matrices st1)(current_nucleus st1 \<mapsto>
                                efg_matrix_lines st1 @ [row_values line]),
                           current_nucleus := None, efg_section := False, efg_matrix_lines := []\<rparr>
                   else st1\<lparr>efg_matrix_lines := efg_matrix_lines st1 @ [row_values line]\<rparr>)
             else st1)
      else Inl ValueError)"
  unfolding locator_step_def marker_part_cases collect_part_total raw_marker_def Let_def
  by simp

lemma locator_step_total:
  "marker_ok line \<Longrightarrow>
   locator_step st line =
     Inr (let st1 = (case marker_index line of
                       None \<Rightarrow> st
                     | Some n \<Rightarrow> (if efg_section st
                                   then st\<lparr>efg_section := False, efg_matrix_lines := []\<rparr>
                                   else st)\<lparr>current_nucleus := Some n\<rparr>)
          in if current_nucleus st1 \<noteq> None \<and> raw_marker line
             then st1\<lparr>efg_section := True, efg_matrix_lines := []\<rparr>
             else if efg_section st1 \<and> length (efg_matrix_lines st1) < 3 \<and> three_floats line
             then (if length (efg_matrix_lines st1) = 2
                   then st1\<lparr>raw_efg_matrices :=
                             (raw_efg_matrices st1)(current_nucleus st1 \<mapsto>
                                efg_matrix_lines st1 @ [row_values line]),
                           current_nucleus := None, efg_section := False, efg_matrix_lines := []\<rparr>
                   else st1\<lparr>efg_matrix_lines := efg_matrix_lines st1 @ [row_values line]\<rparr>)
             else st1)"
  by (simp only: locator_step_cases if_True)

lemma locator_step_ok: "locator_step st line = Inr st' \<Longrightarrow> marker_ok line"
  by (cases "marker_ok line") (simp_all only: locator_step_cases if_False sum.distinct)

lemma locator_step_not_ok: "\<not> marker_ok line \<Longrightarrow> locator_step st line = Inl ValueError"
  by (simp only: locator_step_cases if_False)

subsection \<open>The Block Locator: one step of the loop, by the kind of line\<close>

lemma scan_total: "\<forall>l \<in> set content. marker_ok l \<Longrightarrow> \<exists>st'. scan st content = Inr st'"
  by (induction content arbitrary: st) (simp_all add: locator_step_total)

lemma scan_step:
  "scan st (l # ls) = Inr st' \<Longrightarrow> \<exists>st1. locator_step st l = Inr st1 \<and> scan st1 ls = Inr st'"
  by (cases "locator_step st l") simp_all

lemma scan_ok: "scan st content = Inr st' \<Longrightarrow> \<forall>l \<in> set content. marker_ok l"
proof (induction content arbitrary: st)
  case Nil
  then show ?case by simp
next
  case (Cons l ls)
  from scan_step [OF Cons.prems] obtain st1 where
    s: "locator_step st l = Inr st1" "scan st1 ls = Inr st'" by blast
  from locator_step_ok [OF s(1)] Cons.IH [OF s(2)] show ?case by simp
qed

lemma scan_not_ok:
  "l \<in> set content \<Longrightarrow> \<not> marker_ok l \<Longrightarrow> scan st content = Inl ValueError"
proof (induction content arbitrary: st)
  case Nil
  then show ?case by simp
next
  case (Cons x xs)
  show ?case
  proof (cases "marker_ok x")
    case False
    then show ?thesis by (simp add: locator_step_not_ok)
  next
    case True
    with Cons.prems have "l \<in> set xs" by auto
    moreover obtain st1 where "locator_step st x = Inr st1"
      using True by (simp add: locator_step_total)
    ultimately show ?thesis using Cons.IH Cons.prems(2) by simp
  qed
qed

lemma scan_append:
  "scan st (xs @ ys) = (case scan st xs of Inl e \<Rightarrow> Inl e | Inr st' \<Rightarrow> scan st' ys)"
  by (induction xs arbitrary: st) (simp_all split: sum.splits)

lemma scan_append_Inr:
  "scan st xs = Inr st' \<Longrightarrow> scan st (xs @ ys) = scan st' ys"
  by (simp add: scan_append)

lemma step_no_marker:
  "marker_index line = None \<Longrightarrow> \<not> raw_marker line \<or> current_nucleus st = None \<Longrightarrow>
   locator_step st line =
     Inr (if efg_section st \<and> length (efg_matrix_lines st) < 3 \<and> three_floats line
          then (if length (efg_matrix_lines st) = 2
                then st\<lparr>raw_efg_matrices :=
                          (raw_efg_matrices st)(current_nucleus st \<mapsto>
                             efg_matrix_lines st @ [row_values line]),
                        current_nucleus := None, efg_section := False, efg_matrix_lines := []\<rparr>
                else st\<lparr>efg_matrix_lines := efg_matrix_lines st @ [row_values line]\<rparr>)
          else st)"
  by (auto simp: locator_step_total no_marker_ok)

lemma step_raw:
  "marker_index line = None \<Longrightarrow> raw_marker line \<Longrightarrow> current_nucleus st \<noteq> None \<Longrightarrow>
   locator_step st line = Inr (st\<lparr>efg_section := True, efg_matrix_lines := []\<rparr>)"
  by (simp add: locator_step_total no_marker_ok)

lemma step_marker:
  "marker_index line = Some n \<Longrightarrow> marker_ok line \<Longrightarrow> \<not> raw_marker line \<Longrightarrow>
   locator_step st line =
     Inr ((if efg_section st then st\<lparr>efg_section := False, efg_matrix_lines := []\<rparr> else st)
            \<lparr>current_nucleus := Some n\<rparr>)"
  by (simp add: locator_step_total)

lemma step_marker_raw:
  "marker_index line = Some n \<Longrightarrow> marker_ok line \<Longrightarrow> raw_marker line \<Longrightarrow>
   locator_step st line =
     Inr (st\<lparr>current_nucleus := Some n, efg_section := True, efg_matrix_lines := []\<rparr>)"
  by (simp add: locator_step_total)

subsection \<open>The Block Locator: runs of lines\<close>


text \<open>Lines with neither marker leave a state with no open section as it is.\<close>

lemma scan_gap:
  "\<not> efg_section st \<Longrightarrow> \<forall>l \<in> set ls. marker_index l = None \<and> \<not> raw_marker l \<Longrightarrow>
   scan st ls = Inr st"
  by (induction ls) (simp_all add: step_no_marker)


text \<open>
  Inside an open section, lines with neither marker: the first lines with three float
  tokens that fill the matrix are stored under the current nucleus, and the state is
  reset; the other lines are skipped.
\<close>

lemma scan_rows:
  "\<forall>l \<in> set body. marker_index l = None \<and> \<not> raw_marker l \<Longrightarrow>
   efg_section st \<Longrightarrow> length (efg_matrix_lines st) < 3 \<Longrightarrow>
   3 \<le> length (efg_matrix_lines st) + length (filter three_floats body) \<Longrightarrow>
   scan st body =
     Inr (st\<lparr>raw_efg_matrices :=
               (raw_efg_matrices st)(current_nucleus st \<mapsto>
                  efg_matrix_lines st @
                  take (3 - length (efg_matrix_lines st)) (map row_values (filter three_floats body))),
             current_nucleus := None, efg_section := False, efg_matrix_lines := []\<rparr>)"
proof (induction body arbitrary: st)
  case Nil
  then show ?case by simp
next
  case (Cons l ls)
  from Cons.prems(1) have m: "marker_index l = None" "\<not> raw_marker l"
    and ms: "\<forall>l \<in> set ls. marker_index l = None \<and> \<not> raw_marker l"
    by simp_all
  show ?case
  proof (cases "three_floats l")
    case False
    then have s: "locator_step st l = Inr st"
      using m by (simp add: step_no_marker)
    from False Cons.prems(4) have "3 \<le> length (efg_matrix_lines st) + length (filter three_floats ls)"
      by simp
    from Cons.IH [OF ms Cons.prems(2,3) this] s False show ?thesis by simp
  next
    case True
    show ?thesis
    proof (cases "length (efg_matrix_lines st) = 2")
      case two: True
      let ?e = "st\<lparr>raw_efg_matrices :=
                     (raw_efg_matrices st)(current_nucleus st \<mapsto> efg_matrix_lines st @ [row_values l]),
                   current_nucleus := None, efg_section := False, efg_matrix_lines := []\<rparr>"
      have s: "locator_step st l = Inr ?e"
        using m True two Cons.prems(2) by (simp add: step_no_marker)
      have e: "scan ?e ls = Inr ?e"
        by (rule scan_gap) (use ms in simp_all)
      have tk: "efg_matrix_lines st @ take (3 - length (efg_matrix_lines st))
            (map row_values (filter three_floats (l # ls))) = efg_matrix_lines st @ [row_values l]"
        using True two by simp
      have "scan st (l # ls) = scan ?e ls" using s by simp
      also note e
      finally show ?thesis unfolding tk .
    next
      case False
      let ?a = "st\<lparr>efg_matrix_lines := efg_matrix_lines st @ [row_values l]\<rparr>"
      have s: "locator_step st l = Inr ?a"
        using m True False Cons.prems(2,3) by (simp add: step_no_marker)
      have p2: "efg_section ?a" using Cons.prems(2) by simp
      have p3: "length (efg_matrix_lines ?a) < 3" using Cons.prems(3) False by simp
      have p4: "3 \<le> length (efg_matrix_lines ?a) + length (filter three_floats ls)"
        using Cons.prems(4) True by simp
      have sub: "3 - length (efg_matrix_lines st) = Suc (3 - length (efg_matrix_lines ?a))"
        using Cons.prems(3) by simp
      have tk: "efg_matrix_lines st @ take (3 - length (efg_matrix_lines st))
            (map row_values (filter three_floats (l # ls))) =
          efg_matrix_lines ?a @ take (3 - length (efg_matrix_lines ?a))
            (map row_values (filter three_floats ls))"
        unfolding sub using True by simp
      have "scan st (l # ls) = scan ?a ls" using s by simp
      also note Cons.IH [OF ms p2 p3 p4]
      finally show ?thesis unfolding tk by simp
    qed
  qed
qed

text \<open>The dict only grows by stores: a run from a state with a larger dict adds the same entries.\<close>

lemma step_frame:
  "locator_step st l = Inr st' \<Longrightarrow>
   locator_step (st\<lparr>raw_efg_matrices := d ++ raw_efg_matrices st\<rparr>) l =
     Inr (st'\<lparr>raw_efg_matrices := d ++ raw_efg_matrices st'\<rparr>)"
proof -
  assume s: "locator_step st l = Inr st'"
  then have ok: "marker_ok l" by (rule locator_step_ok)
  from s show ?thesis
    by (auto simp: locator_step_total [OF ok] Let_def split: option.splits if_splits)
qed

lemma scan_frame:
  "scan st ls = Inr st' \<Longrightarrow>
   scan (st\<lparr>raw_efg_matrices := d ++ raw_efg_matrices st\<rparr>) ls =
     Inr (st'\<lparr>raw_efg_matrices := d ++ raw_efg_matrices st'\<rparr>)"
proof (induction ls arbitrary: st)
  case Nil
  then show ?case by simp
next
  case (Cons l ls)
  from scan_step [OF Cons.prems] obtain st1 where
    s1: "locator_step st l = Inr st1" and "scan st1 ls = Inr st'" by blast
  from Cons.IH [OF this(2)] step_frame [OF s1, of d] show ?case by simp
qed

subsection \<open>The Block Locator: the lines of the examples\<close>

lemmas line_eval =
  marker_index_def marker_ok_def max_str_digits_def nucleus_match_at_def raw_marker_def
  three_floats_def row_values_def float_match_at_def float_value_def py_float_def num_strip_def
  is_num_space_def is_space_def is_digit_def digits_val_def digit_val_def Let_def

lemma ex_marker_11: "marker_index ''Nucleus 11H'' = Some 11" "\<not> raw_marker ''Nucleus 11H''"
  "marker_ok ''Nucleus 11H''"
  by (simp_all add: line_eval)

lemma ex_marker_12: "marker_index ''Nucleus 12H'' = Some 12" "\<not> raw_marker ''Nucleus 12H''"
  "marker_ok ''Nucleus 12H''"
  by (simp_all add: line_eval)

lemma ex_marker_Hg: "search_nucleus ''Nucleus  12Hg:'' = Some ''12''"
  "marker_index ''Nucleus  12Hg:'' = Some 12" "\<not> raw_marker ''Nucleus  12Hg:''"
  "marker_ok ''Nucleus  12Hg:''"
  by (simp_all add: line_eval)

lemma ex_raw: "marker_index ''Raw EFG matrix'' = None" "raw_marker ''Raw EFG matrix''"
  "\<not> three_floats ''Raw EFG matrix''" "marker_ok ''Raw EFG matrix''"
  by (simp_all add: line_eval)

lemma ex_row_9: "marker_index ''9.0 9.0 9.0'' = None" "\<not> raw_marker ''9.0 9.0 9.0''"
  "three_floats ''9.0 9.0 9.0''" "row_values ''9.0 9.0 9.0'' = [F 9, F 9, F 9]"
  "marker_ok ''9.0 9.0 9.0''"
  by (simp_all add: line_eval)

lemma ex_row_1: "marker_index ''1.0 0.0 0.0'' = None" "\<not> raw_marker ''1.0 0.0 0.0''"
  "three_floats ''1.0 0.0 0.0''" "row_values ''1.0 0.0 0.0'' = [F 1, F 0, F 0]"
  "marker_ok ''1.0 0.0 0.0''"
  by (simp_all add: line_eval)

lemma ex_row_2: "marker_index ''0.0 2.0 0.0'' = None" "\<not> raw_marker ''0.0 2.0 0.0''"
  "three_floats ''0.0 2.0 0.0''" "row_values ''0.0 2.0 0.0'' = [F 0, F 2, F 0]"
  "marker_ok ''0.0 2.0 0.0''"
  by (simp_all add: line_eval)

lemma ex_row_3: "marker_index ''0.0 0.0 -5.0'' = None" "\<not> raw_marker ''0.0 0.0 -5.0''"
  "three_floats ''0.0 0.0 -5.0''" "row_values ''0.0 0.0 -5.0'' = [F 0, F 0, F (- 5)]"
  "marker_ok ''0.0 0.0 -5.0''"
  by (simp_all add: line_eval)

lemma ex_junk: "marker_index ''-----'' = None" "\<not> raw_marker ''-----''"
  "\<not> three_floats ''-----''" "search_nucleus ''-----'' = None"
  "\<not> contains ''Raw EFG matrix'' ''-----''" "length (findall_floats ''-----'') \<noteq> 3"
  "marker_ok ''-----''"
  by (simp_all add: line_eval)

lemmas ex_lines = ex_marker_11 ex_marker_12 ex_marker_Hg ex_raw ex_row_9 ex_row_1 ex_row_2 ex_row_3
  ex_junk

lemma extract_scan:
  "scan initial_state content = Inr st \<Longrightarrow>
   extract_raw_efg_matrices content = Inr (raw_efg_matrices st)"
  by (simp add: extract_raw_efg_matrices_def)

lemma extract_total:
  "\<forall>l \<in> set content. marker_ok l \<Longrightarrow>
   \<exists>st. scan initial_state content = Inr st \<and>
     extract_raw_efg_matrices content = Inr (raw_efg_matrices st)"
  using scan_total [of content initial_state] extract_scan by blast

lemma extract_Inr:
  "extract_raw_efg_matrices content = Inr m \<Longrightarrow>
   \<exists>st. scan initial_state content = Inr st \<and> m = raw_efg_matrices st"
  by (cases "scan initial_state content") (auto simp: extract_raw_efg_matrices_def)

lemma extract_not_ok:
  "l \<in> set content \<Longrightarrow> \<not> marker_ok l \<Longrightarrow> extract_raw_efg_matrices content = Inl ValueError"
  by (simp add: extract_raw_efg_matrices_def scan_not_ok)

text \<open>
  A complete block: the marker of nucleus \<open>n\<close>, lines with neither marker, the
  tensor-data marker, and lines with neither marker of which at least three have three
  float tokens. From any state, the first three such lines are stored under \<open>n\<close>.
\<close>

lemma scan_block:
  assumes mk: "marker_index mk = Some n" "\<not> raw_marker mk"
    and gap: "\<forall>l \<in> set gap. marker_index l = None \<and> \<not> raw_marker l"
    and rawl: "marker_index rawl = None" "raw_marker rawl"
    and body: "\<forall>l \<in> set body. marker_index l = None \<and> \<not> raw_marker l"
      "3 \<le> length (filter three_floats body)"
    and ok: "marker_ok mk"
  shows "scan st ([mk] @ gap @ [rawl] @ body) =
     Inr (st\<lparr>raw_efg_matrices :=
               (raw_efg_matrices st)(Some n \<mapsto> map row_values (take 3 (filter three_floats body))),
             current_nucleus := None, efg_section := False, efg_matrix_lines := []\<rparr>)"
proof -
  let ?s1 = "(if efg_section st then st\<lparr>efg_section := False, efg_matrix_lines := []\<rparr> else st)
               \<lparr>current_nucleus := Some n\<rparr>"
  let ?s2 = "?s1\<lparr>efg_section := True, efg_matrix_lines := []\<rparr>"
  have a: "scan st [mk] = Inr ?s1"
    using mk ok by (simp add: step_marker)
  have b: "scan ?s1 gap = Inr ?s1"
    by (rule scan_gap) (use gap in simp_all)
  have c: "scan ?s1 [rawl] = Inr ?s2"
    using rawl by (simp add: step_raw)
  have d: "scan ?s2 body =
     Inr (?s2\<lparr>raw_efg_matrices :=
               (raw_efg_matrices ?s2)(current_nucleus ?s2 \<mapsto>
                  efg_matrix_lines ?s2 @
                  take (3 - length (efg_matrix_lines ?s2)) (map row_values (filter three_floats body))),
             current_nucleus := None, efg_section := False, efg_matrix_lines := []\<rparr>)"
    by (rule scan_rows) (use body in simp_all)
  have "scan st ([mk] @ gap @ [rawl] @ body) = scan ?s2 body"
    by (simp only: scan_append_Inr [OF a] scan_append_Inr [OF b] scan_append_Inr [OF c])
  also note d
  finally show ?thesis by (simp add: take_map)
qed

text \<open>A run from a state with no current nucleus and no open section, in terms of the run
  from the initial state.\<close>

lemma scan_from_idle:
  assumes "scan initial_state post = Inr sp"
  shows "scan \<lparr>raw_efg_matrices = d, current_nucleus = None, efg_section = False,
               efg_matrix_lines = []\<rparr> post =
         Inr (sp\<lparr>raw_efg_matrices := d ++ raw_efg_matrices sp\<rparr>)"
  using scan_frame [OF assms, of d] by (simp add: initial_state_def)

lemma idle_state_eq:
  "(st :: locator_state)\<lparr>raw_efg_matrices := d, current_nucleus := None, efg_section := False,
       efg_matrix_lines := []\<rparr> =
   \<lparr>raw_efg_matrices = d, current_nucleus = None, efg_section = False, efg_matrix_lines = []\<rparr>"
  by simp

lemma extract_block:
  assumes mk: "marker_index mk = Some n" "\<not> raw_marker mk"
    and gap: "\<forall>l \<in> set gap. marker_index l = None \<and> \<not> raw_marker l"
    and rawl: "marker_index rawl = None" "raw_marker rawl"
    and body: "\<forall>l \<in> set body. marker_index l = None \<and> \<not> raw_marker l"
      "3 \<le> length (filter three_floats body)"
    and ok: "marker_ok mk"
    and pre: "scan initial_state pre = Inr s0"
    and post: "scan initial_state post = Inr sp"
  shows "extract_raw_efg_matrices (pre @ [mk] @ gap @ [rawl] @ body @ post) =
     Inr ((raw_efg_matrices s0)(Some n \<mapsto> map row_values (take 3 (filter three_floats body)))
          ++ raw_efg_matrices sp)"
proof -
  let ?M = "map row_values (take 3 (filter three_floats body))"
  let ?d = "(raw_efg_matrices s0)(Some n \<mapsto> ?M)"
  let ?idle = "\<lparr>raw_efg_matrices = ?d, current_nucleus = None, efg_section = False,
               efg_matrix_lines = []\<rparr>"
  have b: "scan s0 ([mk] @ gap @ [rawl] @ body) = Inr ?idle"
    unfolding scan_block [OF mk gap rawl body ok] idle_state_eq ..
  have "scan initial_state (pre @ ([mk] @ gap @ [rawl] @ body) @ post) = scan ?idle post"
    by (simp only: scan_append_Inr [OF pre] scan_append_Inr [OF b])
  also have "\<dots> = Inr (sp\<lparr>raw_efg_matrices := ?d ++ raw_efg_matrices sp\<rparr>)"
    by (rule scan_from_idle [OF post])
  finally have "scan initial_state (pre @ [mk] @ gap @ [rawl] @ body @ post) =
      Inr (sp\<lparr>raw_efg_matrices := ?d ++ raw_efg_matrices sp\<rparr>)"
    by simp
  from extract_scan [OF this] show ?thesis by simp
qed









text \<open>
  A marker line whose digits are beyond the limit: the literal, a blank, the digits and
  \<open>H\<close>. The pattern matches it and captures the digits.
\<close>

lemma takeWhile_digits: "list_all is_digit g \<Longrightarrow> takeWhile is_digit (g @ CHR ''H'' # rest) = g"
  by (induction g) (simp_all add: is_digit_def)

lemma dropWhile_digits:
  "list_all is_digit g \<Longrightarrow> dropWhile is_digit (g @ CHR ''H'' # rest) = CHR ''H'' # rest"
  by (induction g) (simp_all add: is_digit_def)

lemma search_nucleus_simple:
  assumes "g \<noteq> []" "list_all is_digit g"
  shows "search_nucleus (''Nucleus '' @ g @ ''H'') = Some g"
proof -
  obtain d ds where g: "g = d # ds" using assms(1) by (cases g) auto
  have d: "\<not> is_space d" using assms(2) by (simp add: g digit_not_space)
  have sp: "is_space CHR '' ''" by (simp add: is_space_def)
  have tw: "takeWhile is_digit (d # ds @ ''H'') = d # ds"
    using takeWhile_digits [OF assms(2), of "[]"] by (simp add: g)
  have dw: "dropWhile is_digit (d # ds @ ''H'') = ''H''"
    using dropWhile_digits [OF assms(2), of "[]"] by (simp add: g)
  have tws: "takeWhile is_space (CHR '' '' # d # ds @ ''H'') = '' ''"
    using d sp by simp
  have dws: "dropWhile is_space (CHR '' '' # d # ds @ ''H'') = d # ds @ ''H''"
    using d sp by simp
  have "nucleus_match_at (''Nucleus '' @ g @ ''H'') = Some g"
    unfolding nucleus_match_at_def g
    by (simp add: Let_def tws dws tw dw del: takeWhile.simps dropWhile.simps)
  then show ?thesis by simp
qed

lemma long_marker_not_ok: "\<not> marker_ok (''Nucleus '' @ replicate 4301 CHR ''1'' @ ''H'')"
proof -
  have "search_nucleus (''Nucleus '' @ replicate 4301 CHR ''1'' @ ''H'') =
      Some (replicate 4301 CHR ''1'')"
    by (rule search_nucleus_simple) (simp_all add: list_all_iff is_digit_def)
  then show ?thesis by (simp add: marker_ok_def max_str_digits_def)
qed

text \<open>
  Claim C6 as stated, for every input text, fails: a line on which the marker pattern
  matches 4301 digits makes \<^verbatim>\<open>int\<close> raise ValueError, and the function returns no mapping.
\<close>

theorem locator_raises_on_long_marker:
  "search_nucleus (''Nucleus '' @ replicate 4301 CHR ''1'' @ ''H'') = Some (replicate 4301 CHR ''1'') \<and>
   py_int (replicate 4301 CHR ''1'') = Inl ValueError \<and>
   extract_raw_efg_matrices [''Nucleus '' @ replicate 4301 CHR ''1'' @ ''H''] = Inl ValueError"
proof (intro conjI)
  show "search_nucleus (''Nucleus '' @ replicate 4301 CHR ''1'' @ ''H'') =
      Some (replicate 4301 CHR ''1'')"
    by (rule search_nucleus_simple) (simp_all add: list_all_iff is_digit_def)
  have "py_int (replicate 4301 CHR ''1'') =
      (if length (replicate 4301 CHR ''1'') \<le> max_str_digits
       then Inr (int (digits_val (replicate 4301 CHR ''1''))) else Inl ValueError)"
    by (rule py_int_digits) (simp_all add: list_all_iff is_digit_def)
  then show "py_int (replicate 4301 CHR ''1'') = Inl ValueError"
    by (simp add: max_str_digits_def)
  show "extract_raw_efg_matrices [''Nucleus '' @ replicate 4301 CHR ''1'' @ ''H''] = Inl ValueError"
    by (rule extract_not_ok [OF _ long_marker_not_ok]) simp
qed

text \<open>
  Claim C6, as amended. For every list of lines in which the digits of every marker line
  are within the limit of \<^verbatim>\<open>int\<close> (at most 4300 digits) the function returns a mapping
  and raises nothing: the group of digits of such a marker converts to an int, the float
  tokens of a line always convert to floats, and inside an open section a line with
  neither marker whose number of float tokens is not three leaves the state unchanged.
\<close>

theorem locator_never_raises:
  "((\<forall>l \<in> set content. marker_ok l) \<longrightarrow> (\<exists>m. extract_raw_efg_matrices content = Inr m)) \<and>
   (search_nucleus line = Some group1 \<and> marker_ok line \<longrightarrow> (\<exists>n. py_int group1 = Inr n)) \<and>
   (\<exists>row. map_float (findall_floats line) = Inr row \<and>
           length row = length (findall_floats line)) \<and>
   (efg_section st \<and> search_nucleus line = None \<and> \<not> contains ''Raw EFG matrix'' line \<and>
    length (findall_floats line) \<noteq> 3 \<longrightarrow> locator_step st line = Inr st)"
proof (intro conjI impI)
  show "\<exists>m. extract_raw_efg_matrices content = Inr m" if "\<forall>l \<in> set content. marker_ok l"
    using extract_total [OF that] by blast
  show "\<exists>n. py_int group1 = Inr n" if "search_nucleus line = Some group1 \<and> marker_ok line"
  proof -
    from that have "group1 \<noteq> []" "list_all is_digit group1" "length group1 \<le> max_str_digits"
      using search_nucleus_digits [of line group1] by (auto simp: marker_ok_def)
    then show ?thesis using py_int_digits [of group1] by simp
  qed
  show "\<exists>row. map_float (findall_floats line) = Inr row \<and> length row = length (findall_floats line)"
    by (simp add: map_float_findall row_values_def)
  show "locator_step st line = Inr st"
    if "efg_section st \<and> search_nucleus line = None \<and> \<not> contains ''Raw EFG matrix'' line \<and>
        length (findall_floats line) \<noteq> 3"
    using that
    by (simp add: step_no_marker marker_index_def raw_marker_def three_floats_def)
qed

theorem locator_never_raises_witness:
  "(\<exists>m. extract_raw_efg_matrices [''Nucleus 12H'', ''Raw EFG matrix'', ''-----'', ''1.0 0.0 0.0''] = Inr m) \<and>
   (\<exists>n. py_int ''12'' = Inr n) \<and>
   locator_step
     \<lparr>raw_efg_matrices = Map.empty, current_nucleus = Some 12, efg_section = True,
      efg_matrix_lines = [[F 1, F 0, F 0]]\<rparr> ''-----'' =
   Inr \<lparr>raw_efg_matrices = Map.empty, current_nucleus = Some 12, efg_section = True,
        efg_matrix_lines = [[F 1, F 0, F 0]]\<rparr>"
proof -
  let ?st = "\<lparr>raw_efg_matrices = Map.empty, current_nucleus = Some 12, efg_section = True,
        efg_matrix_lines = [[F 1, F 0, F 0]]\<rparr>"
  have a: "\<forall>l \<in> set [''Nucleus 12H'', ''Raw EFG matrix'', ''-----'', ''1.0 0.0 0.0'']. marker_ok l"
    by (simp add: ex_lines)
  have b: "search_nucleus ''Nucleus 12H'' = Some ''12'' \<and> marker_ok ''Nucleus 12H''"
    by (simp add: ex_lines nucleus_match_at_def is_space_def is_digit_def Let_def)
  have c: "efg_section ?st \<and> search_nucleus ''-----'' = None \<and>
      \<not> contains ''Raw EFG matrix'' ''-----'' \<and> length (findall_floats ''-----'') \<noteq> 3"
    using ex_junk by simp
  from locator_never_raises
    [of "[''Nucleus 12H'', ''Raw EFG matrix'', ''-----'', ''1.0 0.0 0.0'']" "''Nucleus 12H''" "''12''" ?st]
    a b
  have 1: "\<exists>m. extract_raw_efg_matrices [''Nucleus 12H'', ''Raw EFG matrix'', ''-----'', ''1.0 0.0 0.0''] = Inr m"
    and 2: "\<exists>n. py_int ''12'' = Inr n" by blast+
  from locator_never_raises [of "[]" "''-----''" "''12''" ?st] c
  have 3: "locator_step ?st ''-----'' = Inr ?st" by blast
  from 1 2 3 show ?thesis by blast
qed


text \<open>
  Every key of the returned mapping is the nucleus index of a line of the input that the
  marker pattern matches: a line with the literal \<open>Nucleus\<close>, whitespace, digits and the
  letter \<open>H\<close>, the key being the number the digits denote.
\<close>

lemma nucleus_match_at_form:
  "nucleus_match_at s = Some g \<Longrightarrow>
   \<exists>ws post. s = ''Nucleus'' @ ws @ g @ ''H'' @ post \<and> ws \<noteq> [] \<and> list_all is_space ws \<and>
     g \<noteq> [] \<and> list_all is_digit g"
proof -
  assume a: "nucleus_match_at s = Some g"
  define r where "r = drop 7 s"
  define ws where "ws = takeWhile is_space r"
  define r1 where "r1 = dropWhile is_space r"
  define r2 where "r2 = dropWhile is_digit r1"
  from a have t: "take 7 s = ''Nucleus''" and ws: "ws \<noteq> []" and g: "g = takeWhile is_digit r1" "g \<noteq> []"
    and h: "take 1 r2 = ''H''"
    unfolding nucleus_match_at_def Let_def r_def [symmetric] ws_def [symmetric]
      r1_def [symmetric] r2_def [symmetric]
    by (auto split: if_splits)
  have "s = take 7 s @ r" by (simp add: r_def)
  also have "r = ws @ r1" by (simp add: ws_def r1_def)
  also have "r1 = g @ r2" by (simp add: g r2_def)
  also have "r2 = ''H'' @ drop 1 r2" using h by (metis append_take_drop_id)
  finally have "s = ''Nucleus'' @ ws @ g @ ''H'' @ drop 1 r2" by (simp add: t)
  moreover have "list_all is_space ws" "list_all is_digit g"
    unfolding ws_def g by (auto simp: list_all_iff dest: set_takeWhileD)
  ultimately show ?thesis using ws g(2) by blast
qed

lemma search_nucleus_form:
  "search_nucleus line = Some g \<Longrightarrow>
   \<exists>pre ws post. line = pre @ ''Nucleus'' @ ws @ g @ ''H'' @ post \<and> ws \<noteq> [] \<and>
     list_all is_space ws \<and> g \<noteq> [] \<and> list_all is_digit g"
proof (induction line)
  case Nil
  then show ?case by simp
next
  case (Cons c cs)
  show ?case
  proof (cases "nucleus_match_at (c # cs)")
    case (Some g')
    with Cons.prems have "g' = g" by simp
    with Some nucleus_match_at_form [of "c # cs" g] show ?thesis
      by (metis append_Nil)
  next
    case None
    with Cons.prems have "search_nucleus cs = Some g" by simp
    from Cons.IH [OF this] obtain pre ws post where
      "cs = pre @ ''Nucleus'' @ ws @ g @ ''H'' @ post" "ws \<noteq> []" "list_all is_space ws"
      "g \<noteq> []" "list_all is_digit g" by blast
    then have "c # cs = (c # pre) @ ''Nucleus'' @ ws @ g @ ''H'' @ post" by simp
    with \<open>ws \<noteq> []\<close> \<open>list_all is_space ws\<close> \<open>g \<noteq> []\<close> \<open>list_all is_digit g\<close>
    show ?thesis by blast
  qed
qed

lemma step_keys:
  assumes s: "locator_step st line = Inr st'"
    and j: "efg_section st \<longrightarrow> current_nucleus st \<noteq> None"
    and k: "dom (raw_efg_matrices st) \<subseteq> Some ` S" "\<forall>n. current_nucleus st = Some n \<longrightarrow> n \<in> S"
  shows "(efg_section st' \<longrightarrow> current_nucleus st' \<noteq> None) \<and>
         dom (raw_efg_matrices st') \<subseteq> Some ` (S \<union> set_option (marker_index line)) \<and>
         (\<forall>n. current_nucleus st' = Some n \<longrightarrow> n \<in> S \<union> set_option (marker_index line))"
proof -
  let ?S' = "S \<union> set_option (marker_index line)"
  define st1 where "st1 = (case marker_index line of
                       None \<Rightarrow> st
                     | Some n \<Rightarrow> (if efg_section st
                                   then st\<lparr>efg_section := False, efg_matrix_lines := []\<rparr>
                                   else st)\<lparr>current_nucleus := Some n\<rparr>)"
  have d1: "raw_efg_matrices st1 = raw_efg_matrices st"
    by (simp add: st1_def split: option.splits)
  have j1: "efg_section st1 \<longrightarrow> current_nucleus st1 \<noteq> None"
    using j by (simp add: st1_def split: option.splits)
  have c1: "\<forall>n. current_nucleus st1 = Some n \<longrightarrow> n \<in> ?S'"
    using k(2) by (auto simp: st1_def split: option.splits)
  have k1: "dom (raw_efg_matrices st1) \<subseteq> Some ` ?S'"
    using k(1) unfolding d1 by blast
  have st': "st' =
      (if current_nucleus st1 \<noteq> None \<and> raw_marker line
       then st1\<lparr>efg_section := True, efg_matrix_lines := []\<rparr>
       else if efg_section st1 \<and> length (efg_matrix_lines st1) < 3 \<and> three_floats line
       then (if length (efg_matrix_lines st1) = 2
             then st1\<lparr>raw_efg_matrices :=
                       (raw_efg_matrices st1)(current_nucleus st1 \<mapsto>
                          efg_matrix_lines st1 @ [row_values line]),
                     current_nucleus := None, efg_section := False, efg_matrix_lines := []\<rparr>
             else st1\<lparr>efg_matrix_lines := efg_matrix_lines st1 @ [row_values line]\<rparr>)
       else st1)"
    using s unfolding locator_step_total [OF locator_step_ok [OF s]] st1_def [symmetric] Let_def
    by simp
  have key: "current_nucleus st1 \<in> Some ` ?S'" if "efg_section st1"
    using that j1 c1 by auto
  show ?thesis
    unfolding st' using j1 c1 k1 key by auto
qed

lemma scan_keys:
  "scan st content = Inr st' \<Longrightarrow>
   efg_section st \<longrightarrow> current_nucleus st \<noteq> None \<Longrightarrow>
   dom (raw_efg_matrices st) \<subseteq> Some ` S \<Longrightarrow> \<forall>n. current_nucleus st = Some n \<longrightarrow> n \<in> S \<Longrightarrow>
   dom (raw_efg_matrices st') \<subseteq> Some ` (S \<union> (\<Union>l \<in> set content. set_option (marker_index l)))"
proof (induction content arbitrary: st S)
  case Nil
  then show ?case by simp
next
  case (Cons l ls)
  from scan_step [OF Cons.prems(1)] obtain st1 where
    s1: "locator_step st l = Inr st1" and r: "scan st1 ls = Inr st'" by blast
  note k = step_keys [OF s1 Cons.prems(2,3,4)]
  from Cons.IH [OF r, of "S \<union> set_option (marker_index l)"] k
  have "dom (raw_efg_matrices st') \<subseteq>
      Some ` (S \<union> set_option (marker_index l) \<union> (\<Union>l \<in> set ls. set_option (marker_index l)))"
    by blast
  then show ?case by (simp add: Un_assoc)
qed

lemma keys_from_marker_lines:
  assumes "extract_raw_efg_matrices content = Inr m" "k \<in> dom m"
  shows "\<exists>line pre ws g post. line \<in> set content \<and> search_nucleus line = Some g \<and>
           line = pre @ ''Nucleus'' @ ws @ g @ ''H'' @ post \<and> ws \<noteq> [] \<and> list_all is_space ws \<and>
           g \<noteq> [] \<and> list_all is_digit g \<and> k = Some (int (digits_val g))"
proof -
  obtain st where st: "scan initial_state content = Inr st" and m: "m = raw_efg_matrices st"
    using extract_Inr [OF assms(1)] by blast
  have "dom (raw_efg_matrices st) \<subseteq>
      Some ` ({} \<union> (\<Union>l \<in> set content. set_option (marker_index l)))"
    by (rule scan_keys [OF st]) (simp_all add: initial_state_def)
  with assms(2) m obtain line n where l: "line \<in> set content" "marker_index line = Some n" "k = Some n"
    by auto
  then obtain g where g: "search_nucleus line = Some g" "n = int (digits_val g)"
    by (auto simp: marker_index_def)
  from search_nucleus_form [OF g(1)] l g show ?thesis by blast
qed

text \<open>
  Claim C7. The claim is that a marker line naming a nucleus other than hydrogen never
  sets the current nucleus and never contributes an entry. The marker pattern asks only
  for the letter \<open>H\<close> after the digits: the marker line of the mercury nucleus 12,
  \<open>Nucleus  12Hg:\<close>, matches it, and the block that follows is stored under the key 12.
\<close>

theorem mercury_marker_contributes_entry:
  "search_nucleus ''Nucleus  12Hg:'' = Some ''12'' \<and>
   extract_raw_efg_matrices
     ([] @ [''Nucleus  12Hg:''] @ [''-----''] @ [''Raw EFG matrix''] @
      [''1.0 0.0 0.0'', ''0.0 2.0 0.0'', ''0.0 0.0 -5.0''] @ []) =
   Inr (Map.empty(Some 12 \<mapsto> [[F 1, F 0, F 0], [F 0, F 2, F 0], [F 0, F 0, F (- 5)]]))"
proof -
  have s: "scan initial_state [] = Inr initial_state" by simp
  have "extract_raw_efg_matrices
     ([] @ [''Nucleus  12Hg:''] @ [''-----''] @ [''Raw EFG matrix''] @
      [''1.0 0.0 0.0'', ''0.0 2.0 0.0'', ''0.0 0.0 -5.0''] @ []) =
     Inr ((raw_efg_matrices initial_state)(Some 12 \<mapsto> map row_values
            (take 3 (filter three_floats [''1.0 0.0 0.0'', ''0.0 2.0 0.0'', ''0.0 0.0 -5.0''])))
          ++ raw_efg_matrices initial_state)"
    by (rule extract_block [OF _ _ _ _ _ _ _ _ s s]) (simp_all add: ex_lines)
  then have "extract_raw_efg_matrices
     ([] @ [''Nucleus  12Hg:''] @ [''-----''] @ [''Raw EFG matrix''] @
      [''1.0 0.0 0.0'', ''0.0 2.0 0.0'', ''0.0 0.0 -5.0''] @ []) =
     Inr (Map.empty(Some 12 \<mapsto> [[F 1, F 0, F 0], [F 0, F 2, F 0], [F 0, F 0, F (- 5)]]))"
    by (simp add: ex_lines initial_state_def)
  with ex_marker_Hg(1) show ?thesis by (rule conjI)
qed

subsection \<open>The drivers: cells\<close>

lemma py_int_error: "py_int t = Inl e \<Longrightarrow> e = ValueError"
  by (simp add: py_int_def Let_def split_def split: if_splits)

lemma map_int_ok:
  "list_all int_ok toks \<Longrightarrow> map_int toks = Inr (map int_value toks)"
  by (induction toks) (auto simp: int_ok_def int_value_def split: sum.splits)

lemma map_int_not_ok:
  "\<not> list_all int_ok toks \<Longrightarrow> map_int toks = Inl ValueError"
proof (induction toks)
  case Nil
  then show ?case by simp
next
  case (Cons t toks)
  show ?case
  proof (cases "py_int t")
    case (Inl e)
    with py_int_error [OF Inl] show ?thesis by simp
  next
    case (Inr n)
    with Cons show ?thesis by (auto simp: int_ok_def split: sum.splits)
  qed
qed

lemma orientation_results_ok:
  "list_all (\<lambda>entry. list_all int_ok (split_on CHR '','' entry)) (filter (\<lambda>entry. entry \<noteq> []) entries) \<Longrightarrow>
   orientation_results eigh fmt matrices entries =
     Inr (map (\<lambda>g. join '','' (map (resolve_orientation eigh fmt matrices) g))
            (map (\<lambda>entry. map int_value (split_on CHR '','' entry))
               (filter (\<lambda>entry. entry \<noteq> []) entries)))"
  by (induction entries) (auto simp: map_int_ok)

lemma orientation_results_not_ok:
  "\<not> list_all (\<lambda>entry. list_all int_ok (split_on CHR '','' entry)) (filter (\<lambda>entry. entry \<noteq> []) entries) \<Longrightarrow>
   orientation_results eigh fmt matrices entries = Inl ValueError"
proof (induction entries)
  case Nil
  then show ?case by simp
next
  case (Cons entry entries)
  show ?case
  proof (cases "entry = []")
    case True
    with Cons show ?thesis by simp
  next
    case False
    show ?thesis
    proof (cases "list_all int_ok (split_on CHR '','' entry)")
      case True
      with Cons False show ?thesis by (simp add: map_int_ok)
    next
      case nok: False
      then show ?thesis using False by (simp add: map_int_not_ok)
    qed
  qed
qed

lemma orientation_cell_ok:
  "wellformed_cell text \<Longrightarrow>
   orientation_cell eigh fmt matrices text =
     Inr (join [cell_separator text]
            (map (\<lambda>g. join '','' (map (resolve_orientation eigh fmt matrices) g)) (cell_groups text)))"
  unfolding wellformed_cell_def cell_entries_def cell_groups_def
  by (cases "CHR '';'' \<in> set text")
     (simp_all add: orientation_cell_def cell_separator_def orientation_results_ok)

lemma orientation_cell_not_ok:
  "\<not> wellformed_cell text \<Longrightarrow> orientation_cell eigh fmt matrices text = Inl ValueError"
  unfolding wellformed_cell_def cell_entries_def
  by (cases "CHR '';'' \<in> set text")
     (simp_all add: orientation_cell_def cell_separator_def orientation_results_not_ok)

lemma resolve_absent: "matrices (Some i) = None \<Longrightarrow> resolve_orientation eigh fmt matrices i = ''N/A''"
  by (simp add: resolve_orientation_def gco_None format_empty_dict)

lemma resolve_present:
  "matrices (Some i) = Some m \<Longrightarrow> resolve_orientation eigh fmt matrices i \<noteq> ''N/A''"
  using format_present_not_NA [of fmt eigh m] by (simp add: resolve_orientation_def)

lemmas cell_eval =
  cell_separator_def cell_groups_def cell_entries_def wellformed_cell_def
  int_value_def int_ok_def py_int_def num_strip_def is_num_space_def is_digit_def digits_val_def
  digit_val_def max_str_digits_def Let_def

lemma scenario_cell:
  "cell_separator ''1,2;3'' = CHR '';''" "cell_groups ''1,2;3'' = [[1, 2], [3]]"
  "wellformed_cell ''1,2;3''"
  by (simp_all add: cell_eval)

lemma ex_bad_cell: "\<not> wellformed_cell ''1,x''"
  by (simp add: cell_eval)

lemma ex_separator_cell: "\<not> wellformed_cell [CHR 0x1C, CHR ''2'']"
  by (simp add: cell_eval)

lemma ex_empty_group: "wellformed_cell ''1;;2''" "cell_separator ''1;;2'' = CHR '';''"
  "cell_groups ''1;;2'' = [[1], [2]]"
  by (simp_all add: cell_eval)



text \<open>
  The same cell \<open>1\<close> with mappings of the same keys 1 and 2: the first driver writes N/A,
  the second an orientation.
\<close>

lemma cells_differ_example:
  "eqQ_cell False (\<lambda>x. ''0.000000'') (Map.empty(1 \<mapsto> (F 1, F 0), 2 \<mapsto> (F 2, F 0))) ''1'' = Inr ''N/A'' \<and>
   (\<exists>s. orientation_cell
          (\<lambda>m. ((F (- 5), F 1, F 3), ((F 0, F 1, F 0), (F 1, F 0, F 0), (F 0, F 0, F 1))))
          (\<lambda>x. ''0.000000'')
          (Map.empty(Some 1 \<mapsto> [[F 1, F 0, F 0], [F 0, F (- 5), F 0], [F 0, F 0, F 3]],
                     Some 2 \<mapsto> [[F 1, F 0, F 0], [F 0, F (- 5), F 0], [F 0, F 0, F 3]])) ''1'' = Inr s \<and>
        s \<noteq> ''N/A'')"
proof -
  have w: "wellformed_cell ''1''" and g: "cell_groups ''1'' = [[1]]"
    by (simp_all add: cell_eval)
  have m: "map_int (split_on CHR '','' (strip ''1'')) = Inr [1]"
    by (simp add: py_int_def strip_def num_strip_def is_num_space_def is_space_def is_digit_def
        digits_val_def digit_val_def max_str_digits_def Let_def)
  have a: "eqQ_cell False (\<lambda>x. ''0.000000'') (Map.empty(1 \<mapsto> (F 1, F 0), 2 \<mapsto> (F 2, F 0))) ''1'' = Inr ''N/A''"
    by (simp add: eqQ_cell_def m eqQ_pieces_def)
  have "resolve_orientation
          (\<lambda>m. ((F (- 5), F 1, F 3), ((F 0, F 1, F 0), (F 1, F 0, F 0), (F 0, F 0, F 1))))
          (\<lambda>x. ''0.000000'')
          (Map.empty(Some 1 \<mapsto> [[F 1, F 0, F 0], [F 0, F (- 5), F 0], [F 0, F 0, F 3]],
                     Some 2 \<mapsto> [[F 1, F 0, F 0], [F 0, F (- 5), F 0], [F 0, F 0, F 3]])) 1 \<noteq> ''N/A''"
    by (rule resolve_present [of _ _ "[[F 1, F 0, F 0], [F 0, F (- 5), F 0], [F 0, F 0, F 3]]"]) simp
  with a show ?thesis
    by (simp add: orientation_cell_ok [OF w] g)
qed

subsection \<open>The drivers: the table of process\_hydride\_orientations\_csv\<close>

lemma extract_matrices_of:
  "\<forall>l \<in> set content. marker_ok l \<Longrightarrow>
   extract_raw_efg_matrices content = Inr (matrices_of content)"
  using extract_total [of content] by (auto simp: matrices_of_def)

lemma new_row_apply:
  "new_row hcols r c =
     (if c \<in> (\<lambda>h. h @ ''_orientations'') ` set hcols then Str [] else r c)"
  unfolding new_row_def
  by (induction hcols arbitrary: r) auto

text \<open>
  The columns after the assignments of line 282: the input columns, followed by the
  names \<open>col_orientations\<close> that are not input columns, each once.
\<close>

lemma new_columns_added:
  "\<exists>added. new_columns cols hcols = cols @ added \<and> distinct added \<and>
     set added = (\<lambda>h. h @ ''_orientations'') ` set hcols - set cols"
  unfolding new_columns_def
proof (induction hcols arbitrary: cols)
  case Nil
  then show ?case by simp
next
  case (Cons h hcols)
  let ?f = "\<lambda>cs col. if col @ ''_orientations'' \<in> set cs then cs else cs @ [col @ ''_orientations'']"
  show ?case
  proof (cases "h @ ''_orientations'' \<in> set cols")
    case True
    from Cons [of cols] obtain added where
      a: "foldl ?f cols hcols = cols @ added" "distinct added"
        "set added = (\<lambda>h. h @ ''_orientations'') ` set hcols - set cols"
      by blast
    from a(3) True have "set added = (\<lambda>h. h @ ''_orientations'') ` set (h # hcols) - set cols"
      by auto
    with a(1,2) True show ?thesis by simp
  next
    case False
    from Cons [of "cols @ [h @ ''_orientations'']"] obtain added where
      a: "foldl ?f (cols @ [h @ ''_orientations'']) hcols = (cols @ [h @ ''_orientations'']) @ added"
        "distinct added"
        "set added = (\<lambda>h. h @ ''_orientations'') ` set hcols - set (cols @ [h @ ''_orientations''])"
      by blast
    have 1: "foldl ?f cols (h # hcols) = cols @ (h @ ''_orientations'') # added"
      using a(1) False by simp
    have 2: "distinct ((h @ ''_orientations'') # added)"
      using a(2,3) by auto
    have 3: "set ((h @ ''_orientations'') # added) =
        (\<lambda>h. h @ ''_orientations'') ` set (h # hcols) - set cols"
      using a(3) False by auto
    from 1 2 3 show ?thesis by blast
  qed
qed

lemma process_cols_other:
  "process_cols eigh fmt matrices cols r out_row = Inr out_row' \<Longrightarrow>
   \<forall>h \<in> set cols. r h \<noteq> NaN \<longrightarrow> c \<noteq> h @ ''_orientations'' \<Longrightarrow>
   out_row' c = out_row c"
proof (induction cols arbitrary: out_row)
  case Nil
  then show ?case by simp
next
  case (Cons col cols)
  show ?case
  proof (cases "r col = NaN")
    case True
    with Cons show ?thesis by simp
  next
    case False
    with Cons.prems(1) obtain s where s: "orientation_cell eigh fmt matrices (str (r col)) = Inr s"
      and p: "process_cols eigh fmt matrices cols r (out_row(col @ ''_orientations'' := Str s)) = Inr out_row'"
      by (auto split: sum.splits)
    from Cons.IH [OF p] Cons.prems(2) False show ?thesis by simp
  qed
qed

lemma process_cols_cell:
  "process_cols eigh fmt matrices cols r out_row = Inr out_row' \<Longrightarrow>
   h \<in> set cols \<Longrightarrow> r h \<noteq> NaN \<Longrightarrow>
   \<exists>s. orientation_cell eigh fmt matrices (str (r h)) = Inr s \<and>
       out_row' (h @ ''_orientations'') = Str s"
proof (induction cols arbitrary: out_row)
  case Nil
  then show ?case by simp
next
  case (Cons col cols)
  show ?case
  proof (cases "r col = NaN")
    case True
    with Cons.prems have "h \<in> set cols" by auto
    with Cons True show ?thesis by simp
  next
    case False
    with Cons.prems(1) obtain s where s: "orientation_cell eigh fmt matrices (str (r col)) = Inr s"
      and p: "process_cols eigh fmt matrices cols r (out_row(col @ ''_orientations'' := Str s)) = Inr out_row'"
      by (auto split: sum.splits)
    show ?thesis
    proof (cases "h \<in> set cols")
      case True
      from Cons.IH [OF p True Cons.prems(3)] show ?thesis .
    next
      case nin: False
      with Cons.prems(2) have h: "h = col" by simp
      have "out_row' (h @ ''_orientations'') = (out_row(col @ ''_orientations'' := Str s)) (h @ ''_orientations'')"
        by (rule process_cols_other [OF p]) (use nin in auto)
      with h s show ?thesis by simp
    qed
  qed
qed

lemma process_cols_total:
  "\<forall>h \<in> set cols. r h \<noteq> NaN \<longrightarrow> wellformed_cell (str (r h)) \<Longrightarrow>
   \<exists>out_row'. process_cols eigh fmt matrices cols r out_row = Inr out_row'"
proof (induction cols arbitrary: out_row)
  case Nil
  then show ?case by simp
next
  case (Cons col cols)
  show ?case
  proof (cases "r col = NaN")
    case True
    with Cons show ?thesis by simp
  next
    case False
    with Cons.prems have "wellformed_cell (str (r col))" by simp
    from orientation_cell_ok [OF this, of eigh fmt matrices] False Cons show ?thesis by simp
  qed
qed

lemma process_row_eq:
  assumes "''Filename'' \<in> set (columns input_data)"
    and "\<forall>s. r ''Filename'' \<noteq> NonStr s"
    and "\<forall>content. row_file files orca_folder_path r = Some content \<longrightarrow>
           (\<forall>l \<in> set content. marker_ok l)"
  shows "process_row eigh fmt files orca_folder_path input_data r out_row =
     (case row_file files orca_folder_path r of
        None \<Rightarrow> Inr out_row
      | Some content \<Rightarrow>
          process_cols eigh fmt (matrices_of content) (hydride_cols input_data) r out_row)"
proof (cases "r ''Filename''")
  case NaN
  with assms(1) show ?thesis by (simp add: process_row_def row_file_def)
next
  case (NonStr s)
  with assms(2) show ?thesis by simp
next
  case (Str filename)
  show ?thesis
  proof (cases "files (path_join orca_folder_path (replace ''.xyz'' ''_input.inp.out'' filename))")
    case None
    with Str assms(1) show ?thesis by (simp add: process_row_def row_file_def)
  next
    case (Some content)
    with Str have rf: "row_file files orca_folder_path r = Some content"
      by (simp add: row_file_def)
    with assms(3) have "extract_raw_efg_matrices content = Inr (matrices_of content)"
      using extract_matrices_of by blast
    with Str Some assms(1) rf show ?thesis by (simp add: process_row_def)
  qed
qed

lemma process_rows_nth:
  "process_rows eigh fmt files orca_folder_path input_data rs = Inr out_rows \<Longrightarrow>
   length out_rows = length rs \<and>
   (\<forall>i<length rs. process_row eigh fmt files orca_folder_path input_data (rs ! i)
        (new_row (hydride_cols input_data) (rs ! i)) = Inr (out_rows ! i))"
proof (induction rs arbitrary: out_rows)
  case Nil
  then show ?case by simp
next
  case (Cons r rs)
  from Cons.prems obtain orow orows where
    o: "process_row eigh fmt files orca_folder_path input_data r
          (new_row (hydride_cols input_data) r) = Inr orow"
    and os: "process_rows eigh fmt files orca_folder_path input_data rs = Inr orows"
    and out: "out_rows = orow # orows"
    by (auto split: sum.splits)
  from Cons.IH [OF os] o show ?case
    unfolding out by (auto simp: nth_Cons split: nat.splits)
qed

lemma process_rows_total:
  "\<forall>r \<in> set rs. \<exists>out_row. process_row eigh fmt files orca_folder_path input_data r
        (new_row (hydride_cols input_data) r) = Inr out_row \<Longrightarrow>
   \<exists>out_rows. process_rows eigh fmt files orca_folder_path input_data rs = Inr out_rows"
  by (induction rs) auto

text \<open>The cells of one row of the output, from the run of the row.\<close>

lemma process_row_cells:
  assumes fn: "''Filename'' \<in> set (columns input_data)"
    and p: "process_row eigh fmt files orca_folder_path input_data r
              (new_row (hydride_cols input_data) r) = Inr out_row"
    and ns: "\<forall>s. r ''Filename'' \<noteq> NonStr s"
    and wf: "\<forall>content. row_file files orca_folder_path r = Some content \<longrightarrow>
              (\<forall>l \<in> set content. marker_ok l) \<and>
              (\<forall>h \<in> set (hydride_cols input_data). r h \<noteq> NaN \<longrightarrow> wellformed_cell (str (r h)))"
  shows "(\<forall>c. c \<notin> (\<lambda>h. h @ ''_orientations'') ` set (hydride_cols input_data) \<longrightarrow> out_row c = r c) \<and>
         (\<forall>h \<in> set (hydride_cols input_data).
            out_row (h @ ''_orientations'') =
              Str (case row_file files orca_folder_path r of
                     None \<Rightarrow> []
                   | Some content \<Rightarrow>
                       if r h = NaN then []
                       else join [cell_separator (str (r h))]
                              (map (\<lambda>g. join '','' (map (resolve_orientation eigh fmt (matrices_of content)) g))
                                 (cell_groups (str (r h))))))"
proof -
  let ?hc = "hydride_cols input_data"
  from wf have ok: "\<forall>content. row_file files orca_folder_path r = Some content \<longrightarrow>
      (\<forall>l \<in> set content. marker_ok l)" by blast
  note eq = process_row_eq [OF fn ns ok]
  show ?thesis
  proof (cases "row_file files orca_folder_path r")
    case None
    with p have "out_row = new_row ?hc r"
      by (simp add: eq)
    with None show ?thesis by (simp add: new_row_apply)
  next
    case (Some content)
    from p Some have pc: "process_cols eigh fmt (matrices_of content) ?hc r (new_row ?hc r) = Inr out_row"
      by (simp add: eq)
    have other: "out_row c = r c" if "c \<notin> (\<lambda>h. h @ ''_orientations'') ` set ?hc" for c
    proof -
      have "out_row c = new_row ?hc r c"
        by (rule process_cols_other [OF pc]) (use that in auto)
      with that show ?thesis by (simp add: new_row_apply)
    qed
    have added: "out_row (h @ ''_orientations'') =
        Str (if r h = NaN then []
             else join [cell_separator (str (r h))]
                    (map (\<lambda>g. join '','' (map (resolve_orientation eigh fmt (matrices_of content)) g))
                       (cell_groups (str (r h)))))"
      if h: "h \<in> set ?hc" for h
    proof (cases "r h = NaN")
      case True
      have "out_row (h @ ''_orientations'') = new_row ?hc r (h @ ''_orientations'')"
        by (rule process_cols_other [OF pc]) (use True in auto)
      with h True show ?thesis by (simp add: new_row_apply)
    next
      case False
      from process_cols_cell [OF pc h False] obtain s where
        s: "orientation_cell eigh fmt (matrices_of content) (str (r h)) = Inr s"
        and o: "out_row (h @ ''_orientations'') = Str s" by blast
      from wf Some h False have "wellformed_cell (str (r h))" by blast
      from orientation_cell_ok [OF this, of eigh fmt "matrices_of content"] s o False
      show ?thesis by simp
    qed
    from other added Some show ?thesis by simp
  qed
qed

lemma process_row_total:
  assumes fn: "''Filename'' \<in> set (columns input_data)"
    and ns: "\<forall>s. r ''Filename'' \<noteq> NonStr s"
    and wf: "\<forall>content. row_file files orca_folder_path r = Some content \<longrightarrow>
              (\<forall>l \<in> set content. marker_ok l) \<and>
              (\<forall>h \<in> set (hydride_cols input_data). r h \<noteq> NaN \<longrightarrow> wellformed_cell (str (r h)))"
  shows "\<exists>out_row'. process_row eigh fmt files orca_folder_path input_data r out_row = Inr out_row'"
proof -
  from wf have ok: "\<forall>content. row_file files orca_folder_path r = Some content \<longrightarrow>
      (\<forall>l \<in> set content. marker_ok l)" by blast
  note eq = process_row_eq [OF fn ns ok]
  show ?thesis
  proof (cases "row_file files orca_folder_path r")
    case None
    then show ?thesis by (simp add: eq)
  next
    case (Some content)
    with wf have "\<forall>h \<in> set (hydride_cols input_data). r h \<noteq> NaN \<longrightarrow> wellformed_cell (str (r h))"
      by blast
    from process_cols_total [OF this] Some show ?thesis
      by (simp add: eq)
  qed
qed

text \<open>
  Claim C9, as amended. For a table with a \<open>Filename\<close> column whose cells are strings or
  missing values, with no column that already has the name \<open>col_orientations\<close> of a
  hydride column \<open>col\<close>, and in which, for every row whose ORCA output file exists,
  \<^verbatim>\<open>int\<close> accepts the digits of every marker line of the file and every token of the
  non-empty groups of every present hydride cell: the driver returns a table with one row
  per input row; its columns are the input columns followed by one added column
  \<open>col_orientations\<close> per hydride column; every cell of an input column is unchanged;
  the added cell is the empty string for a row without file name, without file or
  without cell in \<open>col\<close>, and otherwise the results of the non-empty groups of the cell
  joined by its separator, a group being the results of its indices joined by a comma.
  The cell \<open>1,2;3\<close> has the separator \<open>;\<close> and the groups \<open>[[1,2],[3]]\<close>.
\<close>

theorem orientations_table:
  assumes fn: "''Filename'' \<in> set (columns input_data)"
    and ns: "\<forall>r \<in> set (rows input_data). \<forall>s. r ''Filename'' \<noteq> NonStr s"
    and nc: "\<forall>h \<in> set (hydride_cols input_data). h @ ''_orientations'' \<notin> set (columns input_data)"
    and wf: "\<forall>r \<in> set (rows input_data). \<forall>content.
               row_file files orca_folder_path r = Some content \<longrightarrow>
               (\<forall>l \<in> set content. marker_ok l) \<and>
               (\<forall>h \<in> set (hydride_cols input_data). r h \<noteq> NaN \<longrightarrow> wellformed_cell (str (r h)))"
  shows "\<exists>output_data.
     process_hydride_orientations_csv eigh fmt files orca_folder_path input_data = Inr output_data \<and>
     length (rows output_data) = length (rows input_data) \<and>
     (\<exists>added. columns output_data = columns input_data @ added \<and> distinct added \<and>
        set added = (\<lambda>h. h @ ''_orientations'') ` set (hydride_cols input_data)) \<and>
     (\<forall>i<length (rows input_data). \<forall>c \<in> set (columns input_data).
        (rows output_data ! i) c = (rows input_data ! i) c) \<and>
     (\<forall>i<length (rows input_data). \<forall>h \<in> set (hydride_cols input_data).
        (rows output_data ! i) (h @ ''_orientations'') =
          Str (case row_file files orca_folder_path (rows input_data ! i) of
                 None \<Rightarrow> []
               | Some content \<Rightarrow>
                   if (rows input_data ! i) h = NaN then []
                   else join [cell_separator (str ((rows input_data ! i) h))]
                          (map (\<lambda>g. join '','' (map (resolve_orientation eigh fmt (matrices_of content)) g))
                             (cell_groups (str ((rows input_data ! i) h)))))) \<and>
     cell_separator ''1,2;3'' = CHR '';'' \<and> cell_groups ''1,2;3'' = [[1, 2], [3]]"
proof -
  let ?hc = "hydride_cols input_data"
  have "\<forall>r \<in> set (rows input_data). \<exists>out_row.
      process_row eigh fmt files orca_folder_path input_data r (new_row ?hc r) = Inr out_row"
  proof
    fix r assume r: "r \<in> set (rows input_data)"
    from r ns have 1: "\<forall>s. r ''Filename'' \<noteq> NonStr s" by blast
    from r wf have 2: "\<forall>content. row_file files orca_folder_path r = Some content \<longrightarrow>
        (\<forall>l \<in> set content. marker_ok l) \<and>
        (\<forall>h \<in> set ?hc. r h \<noteq> NaN \<longrightarrow> wellformed_cell (str (r h)))" by blast
    from process_row_total [OF fn 1 2]
    show "\<exists>out_row. process_row eigh fmt files orca_folder_path input_data r (new_row ?hc r) = Inr out_row" .
  qed
  from process_rows_total [OF this] obtain out_rows where
    pr: "process_rows eigh fmt files orca_folder_path input_data (rows input_data) = Inr out_rows"
    by blast
  let ?out = "\<lparr>columns = new_columns (columns input_data) ?hc, rows = out_rows\<rparr>"
  have run: "process_hydride_orientations_csv eigh fmt files orca_folder_path input_data = Inr ?out"
    by (simp add: process_hydride_orientations_csv_def pr)
  from process_rows_nth [OF pr] have len: "length out_rows = length (rows input_data)"
    and nth: "\<And>i. i < length (rows input_data) \<Longrightarrow>
      process_row eigh fmt files orca_folder_path input_data (rows input_data ! i)
        (new_row ?hc (rows input_data ! i)) = Inr (out_rows ! i)"
    by simp_all
  have cells: "(\<forall>c. c \<notin> (\<lambda>h. h @ ''_orientations'') ` set ?hc \<longrightarrow>
                  (out_rows ! i) c = (rows input_data ! i) c) \<and>
         (\<forall>h \<in> set ?hc.
            (out_rows ! i) (h @ ''_orientations'') =
              Str (case row_file files orca_folder_path (rows input_data ! i) of
                     None \<Rightarrow> []
                   | Some content \<Rightarrow>
                       if (rows input_data ! i) h = NaN then []
                       else join [cell_separator (str ((rows input_data ! i) h))]
                              (map (\<lambda>g. join '','' (map (resolve_orientation eigh fmt (matrices_of content)) g))
                                 (cell_groups (str ((rows input_data ! i) h))))))"
    if i: "i < length (rows input_data)" for i
  proof (rule process_row_cells [OF fn nth [OF i]])
    from i have m: "rows input_data ! i \<in> set (rows input_data)" by simp
    with ns show "\<forall>s. (rows input_data ! i) ''Filename'' \<noteq> NonStr s" by blast
    from m wf show "\<forall>content. row_file files orca_folder_path (rows input_data ! i) = Some content \<longrightarrow>
        (\<forall>l \<in> set content. marker_ok l) \<and>
        (\<forall>h \<in> set ?hc. (rows input_data ! i) h \<noteq> NaN \<longrightarrow> wellformed_cell (str ((rows input_data ! i) h)))"
      by blast
  qed
  have free: "c \<notin> (\<lambda>h. h @ ''_orientations'') ` set ?hc" if "c \<in> set (columns input_data)" for c
    using that nc by auto
  show ?thesis
  proof (intro exI [of _ ?out] conjI)
    show "process_hydride_orientations_csv eigh fmt files orca_folder_path input_data = Inr ?out"
      by (rule run)
    show "length (rows ?out) = length (rows input_data)" by (simp add: len)
    show "\<exists>added. columns ?out = columns input_data @ added \<and> distinct added \<and>
        set added = (\<lambda>h. h @ ''_orientations'') ` set ?hc"
    proof -
      from new_columns_added [of "columns input_data" ?hc] obtain added where
        a: "new_columns (columns input_data) ?hc = columns input_data @ added" "distinct added"
          "set added = (\<lambda>h. h @ ''_orientations'') ` set ?hc - set (columns input_data)"
        by blast
      from a(3) nc have "set added = (\<lambda>h. h @ ''_orientations'') ` set ?hc" by auto
      with a(1,2) show ?thesis by auto
    qed
    show "\<forall>i<length (rows input_data). \<forall>c \<in> set (columns input_data).
        (rows ?out ! i) c = (rows input_data ! i) c"
      using cells free by simp
    show "\<forall>i<length (rows input_data). \<forall>h \<in> set ?hc.
        (rows ?out ! i) (h @ ''_orientations'') =
          Str (case row_file files orca_folder_path (rows input_data ! i) of
                 None \<Rightarrow> []
               | Some content \<Rightarrow>
                   if (rows input_data ! i) h = NaN then []
                   else join [cell_separator (str ((rows input_data ! i) h))]
                          (map (\<lambda>g. join '','' (map (resolve_orientation eigh fmt (matrices_of content)) g))
                             (cell_groups (str ((rows input_data ! i) h)))))"
      using cells by simp
    show "cell_separator ''1,2;3'' = CHR '';''" by (rule scenario_cell(1))
    show "cell_groups ''1,2;3'' = [[1, 2], [3]]" by (rule scenario_cell(2))
  qed
qed

subsection \<open>The drivers: examples\<close>

text \<open>
  An ORCA file with one block, for the nucleus 1 and the matrix \<open>diag(1, -5, 3)\<close>; the
  eigensolver result of this matrix from above; a formatter that is right on the
  values that occur.
\<close>

lemma ex_marker_1: "marker_index ''Nucleus 1H'' = Some 1" "\<not> raw_marker ''Nucleus 1H''"
  "marker_ok ''Nucleus 1H''"
  by (simp_all add: line_eval)

lemma ex_row_5: "marker_index ''0.0 -5.0 0.0'' = None" "\<not> raw_marker ''0.0 -5.0 0.0''"
  "three_floats ''0.0 -5.0 0.0''" "row_values ''0.0 -5.0 0.0'' = [F 0, F (- 5), F 0]"
  "marker_ok ''0.0 -5.0 0.0''"
  by (simp_all add: line_eval)

lemma ex_row_33: "marker_index ''0.0 0.0 3.0'' = None" "\<not> raw_marker ''0.0 0.0 3.0''"
  "three_floats ''0.0 0.0 3.0''" "row_values ''0.0 0.0 3.0'' = [F 0, F 0, F 3]"
  "marker_ok ''0.0 0.0 3.0''"
  by (simp_all add: line_eval)

lemma ex_file:
  "extract_raw_efg_matrices
     [''Nucleus 1H'', ''Raw EFG matrix'', ''1.0 0.0 0.0'', ''0.0 -5.0 0.0'', ''0.0 0.0 3.0''] =
   Inr (Map.empty(Some 1 \<mapsto> [[F 1, F 0, F 0], [F 0, F (- 5), F 0], [F 0, F 0, F 3]]))"
proof -
  have s: "scan initial_state [] = Inr initial_state" by simp
  have "extract_raw_efg_matrices
     ([] @ [''Nucleus 1H''] @ [] @ [''Raw EFG matrix''] @
      [''1.0 0.0 0.0'', ''0.0 -5.0 0.0'', ''0.0 0.0 3.0''] @ []) =
     Inr ((raw_efg_matrices initial_state)(Some 1 \<mapsto> map row_values
            (take 3 (filter three_floats [''1.0 0.0 0.0'', ''0.0 -5.0 0.0'', ''0.0 0.0 3.0''])))
          ++ raw_efg_matrices initial_state)"
    by (rule extract_block [OF _ _ _ _ _ _ _ _ s s])
       (simp_all add: ex_lines ex_marker_1 ex_row_5 ex_row_33)
  then show ?thesis
    by (simp add: ex_lines ex_row_5 ex_row_33 initial_state_def)
qed

lemma ex_matrices_of:
  "matrices_of [''Nucleus 1H'', ''Raw EFG matrix'', ''1.0 0.0 0.0'', ''0.0 -5.0 0.0'', ''0.0 0.0 3.0''] =
   Map.empty(Some 1 \<mapsto> [[F 1, F 0, F 0], [F 0, F (- 5), F 0], [F 0, F 0, F 3]])"
  by (simp add: matrices_of_def ex_file)

lemma extract_Nil: "extract_raw_efg_matrices [] = Inr Map.empty"
  by (simp add: extract_raw_efg_matrices_def initial_state_def)

lemma matrices_of_Nil: "matrices_of [] = Map.empty"
  by (simp add: matrices_of_def extract_Nil)

lemma ex_resolve:
  "resolve_orientation
     (\<lambda>m. ((F (- 5), F 1, F 3), ((F 0, F 1, F 0), (F 1, F 0, F 0), (F 0, F 0, F 1))))
     (\<lambda>x. if x = NegZero then ''-0.000000'' else if x = F 1 then ''1.000000'' else ''0.000000'')
     (Map.empty(Some 1 \<mapsto> [[F 1, F 0, F 0], [F 0, F (- 5), F 0], [F 0, F 0, F 3]])) 1 =
   ''X(1.000000,0.000000,0.000000);Y(-0.000000,-0.000000,1.000000);Z(0.000000,1.000000,0.000000)''"
  by (simp add: resolve_orientation_def gco_example format_full_dict axis_str_def)

lemma ex_hydride_cols:
  "hydride_cols \<lparr>columns = [''Filename'', ''Hydrides''], rows = rs\<rparr> = [''Hydrides'']"
  "hydride_cols \<lparr>columns = [''Hydrides''], rows = rs\<rparr> = [''Hydrides'']"
  "hydride_cols \<lparr>columns = [''Filename'', ''Hydrides'', ''Hydrides_orientations''], rows = rs\<rparr> =
     [''Hydrides'', ''Hydrides_orientations'']"
  by (simp_all add: hydride_cols_def)

lemma ex_path:
  "replace ''.xyz'' ''_input.inp.out'' ''m.xyz'' = ''m_input.inp.out''"
  "replace ''.xyz'' ''_input.inp.out'' ''n.xyz'' = ''n_input.inp.out''"
  "path_join ''d'' ''m_input.inp.out'' = ''d/m_input.inp.out''"
  "path_join ''d'' ''n_input.inp.out'' = ''d/n_input.inp.out''"
  by (simp_all add: path_join_def)

lemma distinct_singleton: "distinct xs \<Longrightarrow> set xs = {a} \<Longrightarrow> xs = [a]"
proof (cases xs)
  case Nil
  assume "set xs = {a}"
  with Nil show ?thesis by simp
next
  case (Cons x ys)
  assume d: "distinct xs" and s: "set xs = {a}"
  from s Cons have x: "x = a" by auto
  from s Cons have "set ys \<subseteq> {a}" by auto
  moreover from d Cons x have "a \<notin> set ys" by simp
  ultimately have "ys = []" by (cases ys) auto
  with Cons x show ?thesis by simp
qed

text \<open>The run on a table of one row.\<close>

lemma run_single:
  "process_hydride_orientations_csv eigh fmt files orca_folder_path \<lparr>columns = cols, rows = [r]\<rparr> =
     (case process_row eigh fmt files orca_folder_path \<lparr>columns = cols, rows = [r]\<rparr> r
             (new_row (hydride_cols \<lparr>columns = cols, rows = [r]\<rparr>) r) of
        Inl e \<Rightarrow> Inl e
      | Inr out_row \<Rightarrow>
          Inr \<lparr>columns = new_columns cols (hydride_cols \<lparr>columns = cols, rows = [r]\<rparr>),
               rows = [out_row]\<rparr>)"
  by (simp add: process_hydride_orientations_csv_def split: sum.splits)

lemma run_bad_file:
  assumes "\<not> marker_ok l"
  shows "process_hydride_orientations_csv eigh fmt (Map.empty(''d/m_input.inp.out'' \<mapsto> [l])) ''d''
     \<lparr>columns = [''Filename'', ''Hydrides''],
      rows = [(\<lambda>c. NaN)(''Filename'' := Str ''m.xyz'', ''Hydrides'' := Str ''1'')]\<rparr> = Inl ValueError"
proof -
  have "extract_raw_efg_matrices [l] = Inl ValueError"
    by (rule extract_not_ok [OF _ assms]) simp
  then show ?thesis
    by (simp add: run_single process_row_def ex_path)
qed

theorem orientations_table_witness:
  "\<exists>output_data.
     process_hydride_orientations_csv
       (\<lambda>m. ((F (- 5), F 1, F 3), ((F 0, F 1, F 0), (F 1, F 0, F 0), (F 0, F 0, F 1))))
       (\<lambda>x. if x = NegZero then ''-0.000000'' else if x = F 1 then ''1.000000'' else ''0.000000'')
       (Map.empty(''d/m_input.inp.out'' \<mapsto>
          [''Nucleus 1H'', ''Raw EFG matrix'', ''1.0 0.0 0.0'', ''0.0 -5.0 0.0'', ''0.0 0.0 3.0'']))
       ''d''
       \<lparr>columns = [''Filename'', ''Hydrides''],
        rows = [(\<lambda>c. NaN)(''Filename'' := Str ''m.xyz'', ''Hydrides'' := Str ''1,2;3''),
                (\<lambda>c. NaN)(''Filename'' := Str ''n.xyz'', ''Hydrides'' := Str ''4'')]\<rparr> = Inr output_data \<and>
     length (rows output_data) = 2 \<and>
     columns output_data = [''Filename'', ''Hydrides'', ''Hydrides_orientations''] \<and>
     (rows output_data ! 0) ''Filename'' = Str ''m.xyz'' \<and>
     (rows output_data ! 0) ''Hydrides'' = Str ''1,2;3'' \<and>
     (rows output_data ! 0) ''Hydrides_orientations'' =
        Str ''X(1.000000,0.000000,0.000000);Y(-0.000000,-0.000000,1.000000);Z(0.000000,1.000000,0.000000),N/A;N/A'' \<and>
     (rows output_data ! 1) ''Filename'' = Str ''n.xyz'' \<and>
     (rows output_data ! 1) ''Hydrides'' = Str ''4'' \<and>
     (rows output_data ! 1) ''Hydrides_orientations'' = Str []"
proof -
  let ?r0 = "(\<lambda>c. NaN)(''Filename'' := Str ''m.xyz'', ''Hydrides'' := Str ''1,2;3'')"
  let ?r1 = "(\<lambda>c. NaN)(''Filename'' := Str ''n.xyz'', ''Hydrides'' := Str ''4'')"
  let ?df = "\<lparr>columns = [''Filename'', ''Hydrides''], rows = [?r0, ?r1]\<rparr>"
  let ?content = "[''Nucleus 1H'', ''Raw EFG matrix'', ''1.0 0.0 0.0'', ''0.0 -5.0 0.0'', ''0.0 0.0 3.0'']"
  let ?files = "Map.empty(''d/m_input.inp.out'' \<mapsto> ?content)"
  let ?eigh = "\<lambda>m::matrix. ((F (- 5), F 1, F 3), ((F 0, F 1, F 0), (F 1, F 0, F 0), (F 0, F 0, F 1)))"
  let ?fmt = "\<lambda>x. if x = NegZero then ''-0.000000'' else if x = F 1 then ''1.000000'' else ''0.000000''"
  have rf0: "row_file ?files ''d'' ?r0 = Some ?content"
    and rf1: "row_file ?files ''d'' ?r1 = None"
    by (simp_all add: row_file_def ex_path)
  have fn: "''Filename'' \<in> set (columns ?df)" by simp
  have ns: "\<forall>r \<in> set (rows ?df). \<forall>s. r ''Filename'' \<noteq> NonStr s" by simp
  have nc: "\<forall>h \<in> set (hydride_cols ?df). h @ ''_orientations'' \<notin> set (columns ?df)"
    by (simp add: ex_hydride_cols)
  have wf: "\<forall>r \<in> set (rows ?df). \<forall>content. row_file ?files ''d'' r = Some content \<longrightarrow>
      (\<forall>l \<in> set content. marker_ok l) \<and>
      (\<forall>h \<in> set (hydride_cols ?df). r h \<noteq> NaN \<longrightarrow> wellformed_cell (str (r h)))"
    using rf0 rf1
    by (auto simp: ex_hydride_cols scenario_cell ex_lines ex_marker_1 ex_row_5 ex_row_33)
  from orientations_table [OF fn ns nc wf, of ?eigh ?fmt] obtain out added where
    run: "process_hydride_orientations_csv ?eigh ?fmt ?files ''d'' ?df = Inr out"
    and len: "length (rows out) = length (rows ?df)"
    and cols: "columns out = columns ?df @ added" "distinct added"
      "set added = (\<lambda>h. h @ ''_orientations'') ` set (hydride_cols ?df)"
    and old: "\<forall>i<length (rows ?df). \<forall>c \<in> set (columns ?df). (rows out ! i) c = (rows ?df ! i) c"
    and new: "\<forall>i<length (rows ?df). \<forall>h \<in> set (hydride_cols ?df).
        (rows out ! i) (h @ ''_orientations'') =
          Str (case row_file ?files ''d'' (rows ?df ! i) of
                 None \<Rightarrow> []
               | Some content \<Rightarrow>
                   if (rows ?df ! i) h = NaN then []
                   else join [cell_separator (str ((rows ?df ! i) h))]
                          (map (\<lambda>g. join '','' (map (resolve_orientation ?eigh ?fmt (matrices_of content)) g))
                             (cell_groups (str ((rows ?df ! i) h)))))"
    by blast
  from len have l: "length (rows out) = 2" by simp
  from cols(3) have "set added = {''Hydrides_orientations''}" by (simp add: ex_hydride_cols)
  with cols(2) have "added = [''Hydrides_orientations'']" by (rule distinct_singleton)
  with cols(1) have c: "columns out = [''Filename'', ''Hydrides'', ''Hydrides_orientations'']" by simp
  from old have o0: "\<forall>c \<in> set (columns ?df). (rows out ! 0) c = (rows ?df ! 0) c"
    and o1: "\<forall>c \<in> set (columns ?df). (rows out ! 1) c = (rows ?df ! 1) c"
    by simp_all
  from o0 have o01: "(rows out ! 0) ''Filename'' = Str ''m.xyz''"
    and o02: "(rows out ! 0) ''Hydrides'' = Str ''1,2;3''"
    by simp_all
  from o1 have o11: "(rows out ! 1) ''Filename'' = Str ''n.xyz''"
    and o12: "(rows out ! 1) ''Hydrides'' = Str ''4''"
    by simp_all
  have r2: "resolve_orientation ?eigh ?fmt
      (Map.empty(Some 1 \<mapsto> [[F 1, F 0, F 0], [F 0, F (- 5), F 0], [F 0, F 0, F 3]])) 2 = ''N/A''"
    and r3: "resolve_orientation ?eigh ?fmt
      (Map.empty(Some 1 \<mapsto> [[F 1, F 0, F 0], [F 0, F (- 5), F 0], [F 0, F 0, F 3]])) 3 = ''N/A''"
    by (simp_all add: resolve_absent)
  from new [THEN spec, of 0] have a0: "(rows out ! 0) ''Hydrides_orientations'' =
      Str ''X(1.000000,0.000000,0.000000);Y(-0.000000,-0.000000,1.000000);Z(0.000000,1.000000,0.000000),N/A;N/A''"
    by (simp add: ex_hydride_cols rf0 scenario_cell ex_matrices_of ex_resolve r2 r3)
  from new [THEN spec, of 1] have a1: "(rows out ! 1) ''Hydrides_orientations'' = Str []"
    by (simp add: ex_hydride_cols rf1)
  from run l c o01 o02 a0 o11 o12 a1 show ?thesis by blast
qed

text \<open>
  Claim C9 as stated, for every input table, fails. The driver raises and writes no
  table for a hydride cell with a token that \<^verbatim>\<open>int\<close> rejects (ValueError), for a table
  without the column \<open>Filename\<close> (KeyError), for a file name that is a number
  (AttributeError) and for an ORCA file with a marker line of 4301 digits (ValueError).
  Where it returns a table, the added cell does not always keep the structure of the
  input cell: for a row whose ORCA file does not exist it is the empty string, and the
  empty group of the cell \<open>1;;2\<close> is dropped. An input column that has the name of an
  added column is overwritten.
\<close>

theorem orientations_claim_fails:
  "process_hydride_orientations_csv
     (\<lambda>m. ((F (- 5), F 1, F 3), ((F 0, F 1, F 0), (F 1, F 0, F 0), (F 0, F 0, F 1))))
     (\<lambda>x. ''0.000000'') (Map.empty(''d/m_input.inp.out'' \<mapsto> [])) ''d''
     \<lparr>columns = [''Filename'', ''Hydrides''],
      rows = [(\<lambda>c. NaN)(''Filename'' := Str ''m.xyz'', ''Hydrides'' := Str ''1,x'')]\<rparr> = Inl ValueError \<and>
   process_hydride_orientations_csv
     (\<lambda>m. ((F (- 5), F 1, F 3), ((F 0, F 1, F 0), (F 1, F 0, F 0), (F 0, F 0, F 1))))
     (\<lambda>x. ''0.000000'') (Map.empty(''d/m_input.inp.out'' \<mapsto> [])) ''d''
     \<lparr>columns = [''Hydrides''], rows = [(\<lambda>c. NaN)(''Hydrides'' := Str ''1'')]\<rparr> = Inl KeyError \<and>
   process_hydride_orientations_csv
     (\<lambda>m. ((F (- 5), F 1, F 3), ((F 0, F 1, F 0), (F 1, F 0, F 0), (F 0, F 0, F 1))))
     (\<lambda>x. ''0.000000'') (Map.empty(''d/m_input.inp.out'' \<mapsto> [])) ''d''
     \<lparr>columns = [''Filename'', ''Hydrides''],
      rows = [(\<lambda>c. NaN)(''Filename'' := NonStr ''123'', ''Hydrides'' := Str ''1'')]\<rparr> = Inl AttributeError \<and>
   process_hydride_orientations_csv
     (\<lambda>m. ((F (- 5), F 1, F 3), ((F 0, F 1, F 0), (F 1, F 0, F 0), (F 0, F 0, F 1))))
     (\<lambda>x. ''0.000000'')
     (Map.empty(''d/m_input.inp.out'' \<mapsto> [''Nucleus '' @ replicate 4301 CHR ''1'' @ ''H''])) ''d''
     \<lparr>columns = [''Filename'', ''Hydrides''],
      rows = [(\<lambda>c. NaN)(''Filename'' := Str ''m.xyz'', ''Hydrides'' := Str ''1'')]\<rparr> = Inl ValueError \<and>
   process_hydride_orientations_csv
     (\<lambda>m. ((F (- 5), F 1, F 3), ((F 0, F 1, F 0), (F 1, F 0, F 0), (F 0, F 0, F 1))))
     (\<lambda>x. ''0.000000'') Map.empty ''d''
     \<lparr>columns = [''Filename'', ''Hydrides''],
      rows = [(\<lambda>c. NaN)(''Filename'' := Str ''m.xyz'', ''Hydrides'' := Str ''1,2;3'')]\<rparr> =
     Inr \<lparr>columns = [''Filename'', ''Hydrides'', ''Hydrides_orientations''],
          rows = [(\<lambda>c. NaN)(''Filename'' := Str ''m.xyz'', ''Hydrides'' := Str ''1,2;3'',
                              ''Hydrides_orientations'' := Str [])]\<rparr> \<and>
   process_hydride_orientations_csv
     (\<lambda>m. ((F (- 5), F 1, F 3), ((F 0, F 1, F 0), (F 1, F 0, F 0), (F 0, F 0, F 1))))
     (\<lambda>x. ''0.000000'') (Map.empty(''d/m_input.inp.out'' \<mapsto> [])) ''d''
     \<lparr>columns = [''Filename'', ''Hydrides''],
      rows = [(\<lambda>c. NaN)(''Filename'' := Str ''m.xyz'', ''Hydrides'' := Str ''1;;2'')]\<rparr> =
     Inr \<lparr>columns = [''Filename'', ''Hydrides'', ''Hydrides_orientations''],
          rows = [(\<lambda>c. NaN)(''Filename'' := Str ''m.xyz'', ''Hydrides'' := Str ''1;;2'',
                              ''Hydrides_orientations'' := Str ''N/A;N/A'')]\<rparr> \<and>
   process_hydride_orientations_csv
     (\<lambda>m. ((F (- 5), F 1, F 3), ((F 0, F 1, F 0), (F 1, F 0, F 0), (F 0, F 0, F 1))))
     (\<lambda>x. ''0.000000'') Map.empty ''d''
     \<lparr>columns = [''Filename'', ''Hydrides'', ''Hydrides_orientations''],
      rows = [(\<lambda>c. NaN)(''Hydrides'' := Str ''1'', ''Hydrides_orientations'' := Str ''keep'')]\<rparr> =
     Inr \<lparr>columns = [''Filename'', ''Hydrides'', ''Hydrides_orientations'',
                     ''Hydrides_orientations_orientations''],
          rows = [(\<lambda>c. NaN)(''Hydrides'' := Str ''1'', ''Hydrides_orientations'' := Str [],
                              ''Hydrides_orientations_orientations'' := Str [])]\<rparr>"
proof (intro conjI)
  let ?eigh = "\<lambda>m::matrix. ((F (- 5), F 1, F 3), ((F 0, F 1, F 0), (F 1, F 0, F 0), (F 0, F 0, F 1)))"
  let ?fmt = "\<lambda>x::pyfloat. ''0.000000''"
  show "process_hydride_orientations_csv ?eigh ?fmt (Map.empty(''d/m_input.inp.out'' \<mapsto> [])) ''d''
     \<lparr>columns = [''Filename'', ''Hydrides''],
      rows = [(\<lambda>c. NaN)(''Filename'' := Str ''m.xyz'', ''Hydrides'' := Str ''1,x'')]\<rparr> = Inl ValueError"
    by (simp add: run_single process_row_def ex_path ex_hydride_cols extract_Nil
        orientation_cell_not_ok [OF ex_bad_cell])
  show "process_hydride_orientations_csv ?eigh ?fmt (Map.empty(''d/m_input.inp.out'' \<mapsto> [])) ''d''
     \<lparr>columns = [''Hydrides''], rows = [(\<lambda>c. NaN)(''Hydrides'' := Str ''1'')]\<rparr> = Inl KeyError"
    by (simp add: run_single process_row_def)
  show "process_hydride_orientations_csv ?eigh ?fmt (Map.empty(''d/m_input.inp.out'' \<mapsto> [])) ''d''
     \<lparr>columns = [''Filename'', ''Hydrides''],
      rows = [(\<lambda>c. NaN)(''Filename'' := NonStr ''123'', ''Hydrides'' := Str ''1'')]\<rparr> = Inl AttributeError"
    by (simp add: run_single process_row_def)
  show "process_hydride_orientations_csv ?eigh ?fmt
     (Map.empty(''d/m_input.inp.out'' \<mapsto> [''Nucleus '' @ replicate 4301 CHR ''1'' @ ''H''])) ''d''
     \<lparr>columns = [''Filename'', ''Hydrides''],
      rows = [(\<lambda>c. NaN)(''Filename'' := Str ''m.xyz'', ''Hydrides'' := Str ''1'')]\<rparr> = Inl ValueError"
    by (rule run_bad_file [OF long_marker_not_ok])
  show "process_hydride_orientations_csv ?eigh ?fmt Map.empty ''d''
     \<lparr>columns = [''Filename'', ''Hydrides''],
      rows = [(\<lambda>c. NaN)(''Filename'' := Str ''m.xyz'', ''Hydrides'' := Str ''1,2;3'')]\<rparr> =
     Inr \<lparr>columns = [''Filename'', ''Hydrides'', ''Hydrides_orientations''],
          rows = [(\<lambda>c. NaN)(''Filename'' := Str ''m.xyz'', ''Hydrides'' := Str ''1,2;3'',
                              ''Hydrides_orientations'' := Str [])]\<rparr>"
    by (simp add: run_single process_row_def ex_hydride_cols new_row_def new_columns_def)
  show "process_hydride_orientations_csv ?eigh ?fmt (Map.empty(''d/m_input.inp.out'' \<mapsto> [])) ''d''
     \<lparr>columns = [''Filename'', ''Hydrides''],
      rows = [(\<lambda>c. NaN)(''Filename'' := Str ''m.xyz'', ''Hydrides'' := Str ''1;;2'')]\<rparr> =
     Inr \<lparr>columns = [''Filename'', ''Hydrides'', ''Hydrides_orientations''],
          rows = [(\<lambda>c. NaN)(''Filename'' := Str ''m.xyz'', ''Hydrides'' := Str ''1;;2'',
                              ''Hydrides_orientations'' := Str ''N/A;N/A'')]\<rparr>"
    by (simp add: run_single process_row_def ex_path ex_hydride_cols extract_Nil new_row_def
        new_columns_def orientation_cell_ok [OF ex_empty_group(1)] ex_empty_group resolve_absent)
  show "process_hydride_orientations_csv ?eigh ?fmt Map.empty ''d''
     \<lparr>columns = [''Filename'', ''Hydrides'', ''Hydrides_orientations''],
      rows = [(\<lambda>c. NaN)(''Hydrides'' := Str ''1'', ''Hydrides_orientations'' := Str ''keep'')]\<rparr> =
     Inr \<lparr>columns = [''Filename'', ''Hydrides'', ''Hydrides_orientations'',
                     ''Hydrides_orientations_orientations''],
          rows = [(\<lambda>c. NaN)(''Hydrides'' := Str ''1'', ''Hydrides_orientations'' := Str [],
                              ''Hydrides_orientations_orientations'' := Str [])]\<rparr>"
    by (simp add: run_single process_row_def ex_hydride_cols new_row_def new_columns_def)
qed

end
